theory Spec2Isabelle
  imports Complex_Main "HOL-Library.Word" "HOL-Library.Log_Nat"
begin

unbundle bit_operations_syntax

section \<open>The CBOR codec of lib/cbor.js\<close>

text \<open>
  A shallow embedding of the generator (\<^verbatim>\<open>pack\<close>) and the parser (\<^verbatim>\<open>unpack\<close>) of
  \<^verbatim>\<open>lib/cbor.js\<close>. Bytes of a Buffer are 8-bit words, JavaScript numbers are the datatype
  \<open>js_number\<close> below, and the numbers the codec treats as integers (operands, lengths,
  tags) are \<open>int\<close>.
\<close>

subsection \<open>JavaScript numbers\<close>

type_synonym byte = "8 word"

text \<open>
  A JavaScript number is an IEEE-754 double. \<open>Fin q\<close> is the finite double of value
  \<open>q\<close>, with \<open>Fin 0\<close> the positive zero; the negative zero, the infinities and NaN are
  constructors of their own.
\<close>

datatype js_number = Fin rat | NegZero | PosInf | NegInf | NaN

text \<open>The order of the extended line, used by \<^verbatim>\<open><\<close>, \<^verbatim>\<open><=\<close>, \<^verbatim>\<open>>\<close> and \<^verbatim>\<open>>=\<close>; NaN has no place on it.\<close>

fun place :: "js_number \<Rightarrow> (int \<times> rat) option" where
  "place (Fin q) = Some (0, q)"
| "place NegZero = Some (0, 0)"
| "place PosInf = Some (1, 0)"
| "place NegInf = Some (-1, 0)"
| "place NaN = None"

definition js_lt :: "js_number \<Rightarrow> js_number \<Rightarrow> bool" where
  "js_lt a b = (case (place a, place b) of
      (Some (i, x), Some (j, y)) \<Rightarrow> i < j \<or> (i = j \<and> x < y)
    | _ \<Rightarrow> False)"

definition js_le :: "js_number \<Rightarrow> js_number \<Rightarrow> bool" where
  "js_le a b = (case (place a, place b) of
      (Some (i, x), Some (j, y)) \<Rightarrow> i < j \<or> (i = j \<and> x \<le> y)
    | _ \<Rightarrow> False)"

definition js_gt :: "js_number \<Rightarrow> js_number \<Rightarrow> bool" where
  "js_gt a b = js_lt b a"

definition js_ge :: "js_number \<Rightarrow> js_number \<Rightarrow> bool" where
  "js_ge a b = js_le b a"

text \<open>\<^verbatim>\<open>===\<close> on two numbers: NaN equals nothing, the two zeros are equal.\<close>

definition js_seq :: "js_number \<Rightarrow> js_number \<Rightarrow> bool" where
  "js_seq a b = (case (place a, place b) of
      (Some p, Some q) \<Rightarrow> p = q
    | _ \<Rightarrow> False)"

definition isNaN :: "js_number \<Rightarrow> bool" where
  "isNaN a = (a = NaN)"

text \<open>Truncation towards zero, and ToInt32: what \<^verbatim>\<open>x|0\<close> computes.\<close>

definition trunc :: "rat \<Rightarrow> int" where
  "trunc q = (if 0 \<le> q then \<lfloor>q\<rfloor> else \<lceil>q\<rceil>)"

definition int32 :: "int \<Rightarrow> int" where
  "int32 n = signed_take_bit 31 n"

fun ToInt32 :: "js_number \<Rightarrow> int" where
  "ToInt32 (Fin q) = int32 (trunc q)"
| "ToInt32 _ = 0"

definition int_num :: "int \<Rightarrow> js_number" where
  "int_num n = Fin (of_int n)"

text \<open>The integer a number holds, where it holds one (the negative zero holds 0).\<close>

fun num_int :: "js_number \<Rightarrow> int" where
  "num_int (Fin q) = trunc q"
| "num_int _ = 0"

text \<open>\<^verbatim>\<open>!==\<close> is the negation of \<^verbatim>\<open>===\<close>.\<close>

definition js_sne :: "js_number \<Rightarrow> js_number \<Rightarrow> bool" where
  "js_sne a b = (\<not> js_seq a b)"

text \<open>
  The bitwise operators on numbers that hold integers: both operands go through ToInt32
  (the shift count through \<^verbatim>\<open>& 31\<close>), and the result is a 32-bit signed integer.
\<close>

definition js_or :: "int \<Rightarrow> int \<Rightarrow> int" where
  "js_or a b = int32 (int32 a OR int32 b)"

definition js_and :: "int \<Rightarrow> int \<Rightarrow> int" where
  "js_and a b = int32 (int32 a AND int32 b)"

definition js_shl :: "int \<Rightarrow> int \<Rightarrow> int" where
  "js_shl a n = int32 (push_bit (nat (n mod 32)) (int32 a))"

definition js_sar :: "int \<Rightarrow> int \<Rightarrow> int" where
  "js_sar a n = drop_bit (nat (n mod 32)) (int32 a)"

subsection \<open>Values\<close>

text \<open>
  The values the codec packs and delivers. A string is the list of the bytes of its
  UTF-8 form. A plain object is the list of its own enumerable properties in the order
  \<^verbatim>\<open>Object.keys\<close> lists them. A Date, a RegExp and a parsed Url are objects of the
  platform; each is carried by what the codec reads from it: \<open>JDate t\<close> is a Date for
  which \<^verbatim>\<open>getTime() / 1000\<close> is \<open>t\<close>, \<open>JRegExp s\<close> is a RegExp whose \<^verbatim>\<open>source\<close> is
  \<open>s\<close>, and \<open>JUrl ps\<close> is a Url record whose own enumerable properties are \<open>ps\<close>.
  \<open>JUnallocated v\<close> is an instance of \<^verbatim>\<open>Unallocated\<close> whose field \<^verbatim>\<open>value\<close> holds \<open>v\<close>.
  \<open>JObject ps\<close> is an object whose prototype is \<^verbatim>\<open>Object.prototype\<close>, as \<^verbatim>\<open>{}\<close> makes it;
  \<open>JObjectProto p ps\<close> is such an object after its prototype has been replaced, by null
  (\<open>None\<close>) or by the object \<open>p\<close>.
\<close>

datatype js_value =
    JNumber js_number
  | JString string
  | JBool bool
  | JUndefined
  | JNull
  | JArray "js_value list"
  | JObject "(string \<times> js_value) list"
  | JObjectProto "js_value option" "(string \<times> js_value) list"
  | JBuffer "byte list"
  | JBufferStream "byte list"
  | JDate js_number
  | JRegExp string
  | JUrl "(string \<times> js_value) list"
  | JUnallocated int
  | JFunction nat

fun typeof :: "js_value \<Rightarrow> string" where
  "typeof (JNumber _) = ''number''"
| "typeof (JString _) = ''string''"
| "typeof (JBool _) = ''boolean''"
| "typeof JUndefined = ''undefined''"
| "typeof (JFunction _) = ''function''"
| "typeof _ = ''object''"

datatype error =
    InvalidUnallocatedType string
  | NotSmallPositiveInteger js_number
  | IntegerOutOfRange int
  | UnknownType string
  | InvalidAdditionalInfo int
  | InvalidState
  | TagMustNotFollowTag
  | UnsupportedDateType string
  | UnsupportedUriType string
  | UnsupportedRegExpType string
  | RegExpSyntaxError string
  | RadixRangeError
  | KeyTypeError
  | AssignTypeError string
  | OutsideModel
  | DecoderError string

subsection \<open>Unallocated\<close>

text \<open>
  The constructor \<^verbatim>\<open>Unallocated(num)\<close>. It throws unless its argument is a number that
  is neither below 0 nor above 255 and that \<^verbatim>\<open>|0\<close> leaves unchanged. The negative zero
  passes the three tests; the field then holds a zero, kept here as the integer 0.
\<close>

definition Unallocated :: "js_value \<Rightarrow> error + js_value" where
  "Unallocated v = (case v of
      JNumber n \<Rightarrow>
        if js_lt n (int_num 0) \<or> js_gt n (int_num 255) \<or> js_sne (int_num (ToInt32 n)) n
        then Inl (NotSmallPositiveInteger n)
        else Inr (JUnallocated (num_int n))
    | _ \<Rightarrow> Inl (InvalidUnallocatedType (typeof v)))"

subsection \<open>The write side of BufferStream\<close>

text \<open>
  Modelled from the spec: the write operations of \<^verbatim>\<open>lib/BufferStream.js\<close>, which is not
  among the sources. The spec has them append to the accumulated bytes, big-endian where
  a value takes more than one byte. The accumulated bytes are a list; each operation
  returns the list with the new bytes at its end. A value is reduced modulo the width
  it is written at; the generator only writes values that fit.
\<close>

definition writeUInt8 :: "int \<Rightarrow> byte list \<Rightarrow> byte list" where
  "writeUInt8 v bufs = bufs @ [word_of_int v]"

definition writeUInt16BE :: "int \<Rightarrow> byte list \<Rightarrow> byte list" where
  "writeUInt16BE v bufs = bufs @ [word_of_int (drop_bit 8 v), word_of_int v]"

definition writeUInt32BE :: "int \<Rightarrow> byte list \<Rightarrow> byte list" where
  "writeUInt32BE v bufs =
     bufs @ [word_of_int (drop_bit 24 v), word_of_int (drop_bit 16 v),
             word_of_int (drop_bit 8 v), word_of_int v]"

definition append :: "byte list \<Rightarrow> byte list \<Rightarrow> byte list" where
  "append bs bufs = bufs @ bs"

subsection \<open>Integer framing\<close>

definition packInt :: "int \<Rightarrow> int \<Rightarrow> byte list \<Rightarrow> error + byte list" where
  "packInt i mt0 bufs =
     (let mt = js_shl mt0 5 in
      if i \<le> 0x1b then Inr (writeUInt8 (js_or mt i) bufs)
      else if i \<le> 0xff then Inr (writeUInt8 i (writeUInt8 (js_or mt 0x1c) bufs))
      else if i \<le> 0xffff then Inr (writeUInt16BE i (writeUInt8 (js_or mt 0x1d) bufs))
      else if i \<le> 0x7fffffff then Inr (writeUInt32BE i (writeUInt8 (js_or mt 0x1e) bufs))
      else Inl (IntegerOutOfRange i))"


subsection \<open>IEEE-754 bit patterns\<close>

definition pow2 :: "int \<Rightarrow> rat" where
  "pow2 e = (if 0 \<le> e then 2 ^ nat e else 1 / 2 ^ nat (- e))"

text \<open>The exponent of the binade a positive rational lies in.\<close>

definition floor_log2 :: "rat \<Rightarrow> int" where
  "floor_log2 q =
     (let e = bitlen (fst (quotient_of q)) - bitlen (snd (quotient_of q))
      in if pow2 e \<le> q then e else e - 1)"

definition round_even :: "rat \<Rightarrow> int" where
  "round_even q =
     (let f = \<lfloor>q\<rfloor>; r = q - of_int f
      in if r < 1 / 2 then f else if 1 / 2 < r then f + 1
         else if even f then f else f + 1)"

text \<open>
  The 64 bits of a number, as an integer: sign, 11 bits of biased exponent, 52 bits of
  fraction. A rational that is no double is rounded to the nearest one, ties to even,
  and to an infinity beyond the largest.
\<close>

definition magnitude_bits :: "rat \<Rightarrow> int" where
  "magnitude_bits a =
     (let e = max (floor_log2 a) (- 1022);
          m = round_even (a / pow2 (e - 52))
      in min ((e + 1022) * 2 ^ 52 + m) 0x7FF0000000000000)"

fun double_bits :: "js_number \<Rightarrow> int" where
  "double_bits (Fin q) =
     (if q = 0 then 0
      else if q < 0 then 0x8000000000000000 + magnitude_bits (- q)
      else magnitude_bits q)"
| "double_bits NegZero = 0x8000000000000000"
| "double_bits PosInf = 0x7FF0000000000000"
| "double_bits NegInf = 0xFFF0000000000000"
| "double_bits NaN = 0x7FF8000000000000"

text \<open>
  The number a pattern of \<open>1 + ebits + mbits\<close> bits stands for (half precision is 5 and
  10, single 8 and 23, double 11 and 52). Each of them is a double.
\<close>

definition ieee_value :: "nat \<Rightarrow> nat \<Rightarrow> int \<Rightarrow> js_number" where
  "ieee_value ebits mbits w =
     (let s = bit w (ebits + mbits);
          e = take_bit ebits (drop_bit mbits w);
          m = take_bit mbits w;
          bias = 2 ^ (ebits - 1) - 1
      in if e = 2 ^ ebits - 1 then (if m \<noteq> 0 then NaN else if s then NegInf else PosInf)
         else if e = 0 \<and> m = 0 then (if s then NegZero else Fin 0)
         else let a = (if e = 0 then of_int m * pow2 (1 - bias - int mbits)
                       else of_int (2 ^ mbits + m) * pow2 (e - bias - int mbits))
              in Fin (if s then - a else a))"

text \<open>
  Modelled from the spec: \<^verbatim>\<open>writeDoubleBE\<close> of \<^verbatim>\<open>lib/BufferStream.js\<close>, which is not among
  the sources: it appends the eight bytes of the IEEE-754 double, big-endian.
\<close>

definition writeDoubleBE :: "js_number \<Rightarrow> byte list \<Rightarrow> byte list" where
  "writeDoubleBE v bufs =
     bufs @ map (\<lambda>k. word_of_int (drop_bit (8 * k) (double_bits v))) [7, 6, 5, 4, 3, 2, 1, 0]"

text \<open>
  Modelled from the spec: \<^verbatim>\<open>writeString\<close> of \<^verbatim>\<open>lib/BufferStream.js\<close>, which is not among
  the sources: it appends the \<open>len\<close> bytes of the UTF-8 form of the string.
\<close>

definition byte_of_char :: "char \<Rightarrow> byte" where
  "byte_of_char c = word_of_nat (of_char c)"

definition char_of_byte :: "byte \<Rightarrow> char" where
  "char_of_byte b = char_of (unat b)"

definition writeString :: "string \<Rightarrow> int \<Rightarrow> byte list \<Rightarrow> byte list" where
  "writeString s len bufs = bufs @ take (nat len) (map byte_of_char s)"

text \<open>\<^verbatim>\<open>Buffer.byteLength(s, 'utf8')\<close>.\<close>

definition byteLength :: "string \<Rightarrow> int" where
  "byteLength s = int (length s)"

subsection \<open>The generator\<close>

definition packNumber :: "js_number \<Rightarrow> byte list \<Rightarrow> error + byte list" where
  "packNumber obj bufs =
     (if \<not> isNaN obj \<and> js_seq obj (int_num (ToInt32 obj)) then
        (if js_ge obj (int_num 0) then packInt (num_int obj) 0 bufs
         else packInt (- num_int obj - 1) 1 bufs)
      else Inr (writeDoubleBE obj (writeUInt8 0xdf bufs)))"

text \<open>The \<^verbatim>\<open>'string'\<close> case of \<^verbatim>\<open>unsafePack\<close>.\<close>

definition packString :: "string \<Rightarrow> byte list \<Rightarrow> error + byte list" where
  "packString obj bufs =
     (let len = byteLength obj
      in case packInt len 3 bufs of
           Inl e \<Rightarrow> Inl e
         | Inr bufs' \<Rightarrow> Inr (writeString obj len bufs'))"

definition packBuffer :: "byte list \<Rightarrow> byte list \<Rightarrow> error + byte list" where
  "packBuffer obj bufs =
     (case packInt (int (length obj)) 2 bufs of
        Inl e \<Rightarrow> Inl e
      | Inr bufs' \<Rightarrow> Inr (append obj bufs'))"

text \<open>
  \<^verbatim>\<open>unsafePack\<close> of a Generator made without options, as \<^verbatim>\<open>exports.pack\<close> makes it: the
  registry holds Array, Date, Buffer, BufferStream, RegExp and Unallocated with their
  packers, no value is an instance of two of them, and an object that is an instance of
  none is packed as a map of its own keys. \<open>packElems\<close> is the loop of \<^verbatim>\<open>_packArray\<close>,
  \<open>packPairs\<close> the loop over the keys in \<^verbatim>\<open>_packObject\<close>. Where the source packs a number
  or a string it has just read from the object (the seconds of a Date, the source of a
  RegExp, a key), the case of \<^verbatim>\<open>unsafePack\<close> for that type is called directly.

  An object whose prototype has been replaced is an instance of what its prototype is
  an instance of. Where that is none of the six types, the object is packed as a map of
  its own keys, like any other. Where it is one of them, the packer of that type is
  applied to an object that is no Array, Date, Buffer, BufferStream, RegExp or
  Unallocated itself; what happens then is decided by the platform and by
  \<^verbatim>\<open>lib/BufferStream.js\<close>, and is left outside this model (\<open>OutsideModel\<close>).
\<close>

fun registered :: "js_value \<Rightarrow> bool" where
  "registered (JArray xs) = True"
| "registered (JDate t) = True"
| "registered (JBuffer bs) = True"
| "registered (JBufferStream bs) = True"
| "registered (JRegExp s) = True"
| "registered (JUnallocated v) = True"
| "registered (JObjectProto (Some p) ps) = registered p"
| "registered v = False"

fun unsafePack :: "js_value \<Rightarrow> byte list \<Rightarrow> error + byte list"
  and packElems :: "js_value list \<Rightarrow> byte list \<Rightarrow> error + byte list"
  and packPairs :: "(string \<times> js_value) list \<Rightarrow> byte list \<Rightarrow> error + byte list"
where
  "unsafePack (JNumber obj) bufs = packNumber obj bufs"
| "unsafePack (JString obj) bufs = packString obj bufs"
| "unsafePack (JBool obj) bufs = Inr (writeUInt8 (if obj then 0xd9 else 0xd8) bufs)"
| "unsafePack JUndefined bufs = Inr (writeUInt8 0xdb bufs)"
| "unsafePack JNull bufs = Inr (writeUInt8 0xda bufs)"
| "unsafePack (JArray obj) bufs =
     (case packInt (int (length obj)) 4 bufs of
        Inl e \<Rightarrow> Inl e
      | Inr bufs' \<Rightarrow> packElems obj bufs')"
| "unsafePack (JDate t) bufs = packNumber t (writeUInt8 0xeb bufs)"
| "unsafePack (JBuffer obj) bufs = packBuffer obj bufs"
| "unsafePack (JBufferStream obj) bufs = packBuffer obj bufs"
| "unsafePack (JRegExp source) bufs = packString source (writeUInt8 0xf7 bufs)"
| "unsafePack (JUnallocated v) bufs = packInt v 6 bufs"
| "unsafePack (JObject ps) bufs =
     (case packInt (int (length ps)) 5 bufs of
        Inl e \<Rightarrow> Inl e
      | Inr bufs' \<Rightarrow> packPairs ps bufs')"
| "unsafePack (JUrl ps) bufs =
     (case packInt (int (length ps)) 5 bufs of
        Inl e \<Rightarrow> Inl e
      | Inr bufs' \<Rightarrow> packPairs ps bufs')"
| "unsafePack (JObjectProto p ps) bufs =
     (if registered (JObjectProto p ps) then Inl OutsideModel
      else case packInt (int (length ps)) 5 bufs of
             Inl e \<Rightarrow> Inl e
           | Inr bufs' \<Rightarrow> packPairs ps bufs')"
| "unsafePack (JFunction f) bufs = Inl (UnknownType (typeof (JFunction f)))"
| "packElems [] bufs = Inr bufs"
| "packElems (x # xs) bufs =
     (case unsafePack x bufs of
        Inl e \<Rightarrow> Inl e
      | Inr bufs' \<Rightarrow> packElems xs bufs')"
| "packPairs [] bufs = Inr bufs"
| "packPairs ((key, v) # ps) bufs =
     (case packString key bufs of
        Inl e \<Rightarrow> Inl e
      | Inr bufs1 \<Rightarrow>
          (case unsafePack v bufs1 of
             Inl e \<Rightarrow> Inl e
           | Inr bufs2 \<Rightarrow> packPairs ps bufs2))"

text \<open>
  \<^verbatim>\<open>pack(obj)\<close> without a buffer: a new BufferStream is filled and flattened. With a
  buffer, \<^verbatim>\<open>pack(obj, bufs)\<close> is \<^verbatim>\<open>unsafePack\<close>.
\<close>

definition pack :: "js_value \<Rightarrow> error + byte list" where
  "pack obj = unsafePack obj []"

subsection \<open>The registries\<close>

text \<open>What a JavaScript function returns where it may return a value, null or undefined.\<close>

datatype 'a js_ret = Value 'a | Null | Undefined

text \<open>
  \<^verbatim>\<open>semanticTypes\<close> is an array of type, packer, type, packer, ...; it is built by the
  literal in \<^verbatim>\<open>Generator\<close> and by \<^verbatim>\<open>push(type, fun)\<close> only, so it is a list of pairs.
  \<^verbatim>\<open>addSemanticType\<close> returns what it returns and the array as it is left.
\<close>

fun addSemanticType :: "'t \<Rightarrow> 'f \<Rightarrow> ('t \<times> 'f) list \<Rightarrow> 'f js_ret \<times> ('t \<times> 'f) list" where
  "addSemanticType type f [] = (Null, [(type, f)])"
| "addSemanticType type f ((t, old) # rest) =
     (if t = type then (Value old, (t, f) # rest)
      else (case addSemanticType type f rest of (r, rest') \<Rightarrow> (r, (t, old) # rest')))"

text \<open>
  \<^verbatim>\<open>semanticTags\<close> is an object used as a table from tag numbers to decoders. A tag is
  a number; the key it is stored under is its decimal form, so the table is a map from
  the tags.
\<close>

definition addSemanticTag :: "int \<Rightarrow> 'f \<Rightarrow> (int \<rightharpoonup> 'f) \<Rightarrow> 'f js_ret \<times> (int \<rightharpoonup> 'f)" where
  "addSemanticTag tag f semanticTags =
     ((case semanticTags tag of None \<Rightarrow> Undefined | Some old \<Rightarrow> Value old),
      semanticTags(tag \<mapsto> f))"


subsection \<open>Reading a Buffer\<close>

text \<open>
  \<^verbatim>\<open>buf[i]\<close> where a bitwise operator takes it: the byte, and 0 for the \<^verbatim>\<open>undefined\<close> found
  beyond the end.
\<close>

definition buf_at :: "byte list \<Rightarrow> nat \<Rightarrow> int" where
  "buf_at buf i = (if i < length buf then uint (buf ! i) else 0)"

definition be_uint :: "byte list \<Rightarrow> int" where
  "be_uint bs = foldl (\<lambda>a b. a * 256 + uint b) 0 bs"

text \<open>
  The readers of Buffer. The parser calls them on the buffer that \<^verbatim>\<open>wait\<close> has just
  delivered, which holds the bytes they read.
\<close>

definition readUInt8 :: "byte list \<Rightarrow> nat \<Rightarrow> int" where
  "readUInt8 buf off = be_uint (take 1 (drop off buf))"

definition readUInt16BE :: "byte list \<Rightarrow> nat \<Rightarrow> int" where
  "readUInt16BE buf off = be_uint (take 2 (drop off buf))"

definition readUInt32BE :: "byte list \<Rightarrow> nat \<Rightarrow> int" where
  "readUInt32BE buf off = be_uint (take 4 (drop off buf))"

definition readFloatBE :: "byte list \<Rightarrow> nat \<Rightarrow> js_number" where
  "readFloatBE buf off = ieee_value 8 23 (be_uint (take 4 (drop off buf)))"

definition readDoubleBE :: "byte list \<Rightarrow> nat \<Rightarrow> js_number" where
  "readDoubleBE buf off = ieee_value 11 52 (be_uint (take 8 (drop off buf)))"

text \<open>
  The double nearest to an integer, ties to even: the integer itself below \<open>2 ^ 53\<close>.
  It is the value of a sum or difference of two doubles that hold integers.
\<close>

definition double_int :: "int \<Rightarrow> int" where
  "double_int n =
     (let k = bitlen \<bar>n\<bar> - 53
      in if k \<le> 0 then n
         else sgn n * (round_even (of_int \<bar>n\<bar> / 2 ^ nat k) * 2 ^ nat k))"

definition unpackInt :: "int \<Rightarrow> byte list \<Rightarrow> error + int" where
  "unpackInt ai buf =
     (if ai = 28 then Inr (readUInt8 buf 0)
      else if ai = 29 then Inr (readUInt16BE buf 0)
      else if ai = 30 then Inr (readUInt32BE buf 0)
      else if ai = 31 then
        (let f = readUInt32BE buf 0; g = readUInt32BE buf 4
         in Inr (double_int (f * 2 ^ 32 + g)))
      else Inl (InvalidAdditionalInfo ai))"

subsection \<open>Half precision\<close>

text \<open>
  The product of two numbers. A product of two finite numbers is taken exactly: the
  codec multiplies in \<^verbatim>\<open>_unpackHalf\<close> only, a sign, a power of two between \<open>2^-24\<close> and
  \<open>2^5\<close> and an integer below 2048, and each such product is a double.
\<close>

fun negative :: "js_number \<Rightarrow> bool" where
  "negative (Fin q) = (q < 0)"
| "negative NegZero = True"
| "negative NegInf = True"
| "negative _ = False"

fun finite_value :: "js_number \<Rightarrow> rat option" where
  "finite_value (Fin q) = Some q"
| "finite_value NegZero = Some 0"
| "finite_value _ = None"

definition js_mul :: "js_number \<Rightarrow> js_number \<Rightarrow> js_number" where
  "js_mul a b =
     (if a = NaN \<or> b = NaN then NaN
      else case (finite_value a, finite_value b) of
        (Some x, Some y) \<Rightarrow>
          if x * y = 0 then (if negative a = negative b then Fin 0 else NegZero)
          else Fin (x * y)
      | (Some x, None) \<Rightarrow>
          if x = 0 then NaN else if negative a = negative b then PosInf else NegInf
      | (None, Some y) \<Rightarrow>
          if y = 0 then NaN else if negative a = negative b then PosInf else NegInf
      | (None, None) \<Rightarrow> if negative a = negative b then PosInf else NegInf)"

text \<open>\<^verbatim>\<open>Math.pow(2, e)\<close> for an integer \<open>e\<close> between -1074 and 1023.\<close>

definition Math_pow2 :: "int \<Rightarrow> js_number" where
  "Math_pow2 e = Fin (pow2 e)"

definition unpackHalf :: "byte list \<Rightarrow> js_number" where
  "unpackHalf buf =
     (let sign = (if js_and (buf_at buf 0) 0x80 \<noteq> 0 then - 1 else 1);
          exp = js_sar (js_and (buf_at buf 0) 0x7C) 2;
          mant = js_or (js_shl (js_and (buf_at buf 0) 0x03) 8) (buf_at buf 1)
      in if exp = 0 then
           js_mul (js_mul (int_num sign) (Fin (59604644775390625 / 10 ^ 24))) (int_num mant)
         else if exp = 0x1f then
           js_mul (int_num sign) (if mant \<noteq> 0 then NaN else PosInf)
         else js_mul (js_mul (int_num sign) (Math_pow2 (exp - 25))) (int_num (1024 + mant)))"

subsection \<open>The platform\<close>

text \<open>
  What the parser asks of the platform and the codec does not define. \<open>new_RegExp s\<close> is
  the source of \<^verbatim>\<open>new RegExp(s)\<close>, and None where the constructor throws a SyntaxError;
  \<open>new_Date_string s\<close> is \<^verbatim>\<open>new Date(s)\<close> and \<open>new_Date_seconds n\<close> is
  \<^verbatim>\<open>new Date(n * 1000)\<close>, each as the number \<^verbatim>\<open>getTime() / 1000\<close> of the result;
  \<open>url_parse s\<close> is the properties of \<^verbatim>\<open>url.parse(s, true)\<close>; \<open>number_string\<close> is the
  string of a number that is no integer below \<open>2 ^ 53\<close>; \<open>object_key\<close> is the property
  key an object other than an Unallocated converts to, and None where the conversion
  throws a TypeError; \<open>proto_lookup p k\<close> is what an assignment to the property \<open>k\<close> finds
  along the prototype chain that starts at the object \<open>p\<close>, for an object of the platform
  (an Array, a Buffer, a Date, a RegExp, the result of \<^verbatim>\<open>url.parse\<close>, an Unallocated).
\<close>

text \<open>
  What an assignment \<^verbatim>\<open>res[k] = v\<close> finds on the prototype chain of \<open>res\<close> when \<open>res\<close> has
  no property \<open>k\<close> of its own: nothing, or a writable data property (the assignment
  creates the property on \<open>res\<close>); a data property that is not writable or an accessor
  without a setter (the assignment throws a TypeError, the code being strict); the
  accessor \<^verbatim>\<open>__proto__\<close> of \<^verbatim>\<open>Object.prototype\<close>; or any other setter, which takes the
  value and leaves \<open>res\<close> as it is.
\<close>

datatype inherited = Creates | ReadOnly | ProtoAccessor | Swallows

record host =
  new_RegExp :: "string \<Rightarrow> string option"
  new_Date_string :: "string \<Rightarrow> js_number"
  new_Date_seconds :: "js_number \<Rightarrow> js_number"
  url_parse :: "string \<Rightarrow> (string \<times> js_value) list"
  number_string :: "js_number \<Rightarrow> string"
  object_key :: "js_value \<Rightarrow> string option"
  proto_lookup :: "js_value \<Rightarrow> string \<Rightarrow> inherited"

subsection \<open>Strings of numbers, property keys\<close>

definition digit :: "nat \<Rightarrow> char" where
  "digit d = ''0123456789abcdefghijklmnopqrstuvwxyz'' ! d"

fun digits :: "nat \<Rightarrow> nat \<Rightarrow> string" where
  "digits b n = (if b < 2 \<or> n < b then [digit n] else digits b (n div b) @ [digit (n mod b)])"

declare digits.simps [simp del]

text \<open>\<^verbatim>\<open>toString(base)\<close> of a number that holds an integer, for a base from 2 to 36.\<close>

definition int_string :: "nat \<Rightarrow> int \<Rightarrow> string" where
  "int_string b n = (if n < 0 then CHR ''-'' # digits b (nat (- n)) else digits b (nat n))"

text \<open>
  \<^verbatim>\<open>Unallocated.prototype.toString(base)\<close>; the base 0 stands for an absent base. The
  method \<^verbatim>\<open>toString\<close> of a number throws a RangeError for a base outside 2 to 36.
\<close>

definition toString_Unallocated :: "int \<Rightarrow> int \<Rightarrow> error + string" where
  "toString_Unallocated v base0 =
     (let base = (if base0 = 0 then 10 else base0);
          prefix0 = [];
          prefix1 = (if base = 16 then ''0x'' else prefix0);
          prefix2 = (if base = 8 then ''0'' else prefix1);
          prefix = (if base = 2 then ''0b'' else prefix2)
      in if base < 2 \<or> 36 < base then Inl RadixRangeError
         else Inr (''Unallocated-'' @ prefix @ int_string (nat base) v))"

text \<open>The string of a number, as the key of a property.\<close>

definition number_key :: "host \<Rightarrow> js_number \<Rightarrow> string" where
  "number_key h n =
     (case n of
        NaN \<Rightarrow> ''NaN''
      | PosInf \<Rightarrow> ''Infinity''
      | NegInf \<Rightarrow> ''-Infinity''
      | NegZero \<Rightarrow> ''0''
      | Fin q \<Rightarrow>
          if of_int (trunc q) = q \<and> \<bar>q\<bar> < 2 ^ 53 then int_string 10 (trunc q)
          else number_string h n)"

text \<open>The conversion of the value between the brackets of \<^verbatim>\<open>res[key]\<close> to a property key.\<close>

fun ToPropertyKey :: "host \<Rightarrow> js_value \<Rightarrow> error + string" where
  "ToPropertyKey h (JString s) = Inr s"
| "ToPropertyKey h (JNumber n) = Inr (number_key h n)"
| "ToPropertyKey h (JBool b) = Inr (if b then ''true'' else ''false'')"
| "ToPropertyKey h JUndefined = Inr ''undefined''"
| "ToPropertyKey h JNull = Inr ''null''"
| "ToPropertyKey h (JUnallocated v) = toString_Unallocated v 0"
| "ToPropertyKey h v = (case object_key h v of None \<Rightarrow> Inl KeyTypeError | Some k \<Rightarrow> Inr k)"

text \<open>
  An array index is the decimal form of an integer below \<open>2 ^ 32 - 1\<close>. The keys of an
  object that are array indices are listed first, in ascending order, the others after
  them in the order they were created.
\<close>

definition array_index :: "string \<Rightarrow> nat option" where
  "array_index k =
     (let n = foldl (\<lambda>a c. 10 * a + (of_char c - 48)) 0 k
      in if k = digits 10 n \<and> int n < 4294967295 then Some n else None)"

fun replace :: "string \<Rightarrow> js_value \<Rightarrow> (string \<times> js_value) list \<Rightarrow> (string \<times> js_value) list" where
  "replace k v [] = []"
| "replace k v ((k', v') # ps) = (if k' = k then (k, v) # ps else (k', v') # replace k v ps)"

fun insert_index ::
  "nat \<Rightarrow> string \<Rightarrow> js_value \<Rightarrow> (string \<times> js_value) list \<Rightarrow> (string \<times> js_value) list" where
  "insert_index n k v [] = [(k, v)]"
| "insert_index n k v ((k', v') # ps) =
     (case array_index k' of
        Some m \<Rightarrow> if m < n then (k', v') # insert_index n k v ps else (k, v) # (k', v') # ps
      | None \<Rightarrow> (k, v) # (k', v') # ps)"

text \<open>
  The object \<^verbatim>\<open>res\<close> that \<^verbatim>\<open>_unpackMap\<close> fills: its prototype and its own properties. It
  is made by \<^verbatim>\<open>{}\<close>, so its prototype is \<^verbatim>\<open>Object.prototype\<close> at first.
\<close>

datatype prototype = Initial | NullProto | Proto js_value

type_synonym object = "prototype \<times> (string \<times> js_value) list"

definition add_own ::
  "(string \<times> js_value) list \<Rightarrow> string \<Rightarrow> js_value \<Rightarrow> (string \<times> js_value) list" where
  "add_own ps k v =
     (case array_index k of
        Some n \<Rightarrow> insert_index n k v ps
      | None \<Rightarrow> ps @ [(k, v)])"

text \<open>The values that are objects (null is not one).\<close>

fun is_object :: "js_value \<Rightarrow> bool" where
  "is_object (JNumber n) = False"
| "is_object (JString s) = False"
| "is_object (JBool b) = False"
| "is_object JUndefined = False"
| "is_object JNull = False"
| "is_object v = True"

text \<open>
  The setter of the accessor \<^verbatim>\<open>__proto__\<close>: given an object or null it replaces the
  prototype, given anything else it does nothing. The value is one the parser has just
  decoded, so the object is not on its prototype chain and the replacement succeeds.
\<close>

definition proto_setter :: "object \<Rightarrow> js_value \<Rightarrow> object" where
  "proto_setter res v =
     (if v = JNull then (NullProto, snd res)
      else if is_object v then (Proto v, snd res)
      else res)"

text \<open>
  What an assignment to the property \<open>k\<close> finds along the prototype chain that starts at
  the object \<open>p\<close>. A property that a decoded map has of its own is a writable data
  property; a map without it hands on to its prototype: \<^verbatim>\<open>Object.prototype\<close>, which has the
  accessor \<^verbatim>\<open>__proto__\<close> and otherwise data properties that are writable, none, or the
  object that replaced it.
\<close>

fun inherited_property :: "host \<Rightarrow> js_value \<Rightarrow> string \<Rightarrow> inherited" where
  "inherited_property h (JObject ps) k =
     (if map_of ps k \<noteq> None then Creates
      else if k = ''__proto__'' then ProtoAccessor
      else Creates)"
| "inherited_property h (JObjectProto None ps) k = Creates"
| "inherited_property h (JObjectProto (Some p) ps) k =
     (if map_of ps k \<noteq> None then Creates else inherited_property h p k)"
| "inherited_property h p k = proto_lookup h p k"

text \<open>
  \<^verbatim>\<open>res[k] = v\<close>, in strict code, on such an object. A property of its own is given the
  new value. Otherwise the prototype chain decides. With no prototype the property is
  created, whatever its name. With \<^verbatim>\<open>Object.prototype\<close>, every name but \<^verbatim>\<open>__proto__\<close> is
  absent or a writable data property (the methods), so the property is created;
  \<^verbatim>\<open>__proto__\<close> is the accessor, and its setter is called. With another object as the
  prototype, what is found along its chain decides.
\<close>

definition js_set :: "host \<Rightarrow> object \<Rightarrow> string \<Rightarrow> js_value \<Rightarrow> error + object" where
  "js_set h res k v =
     (if map_of (snd res) k \<noteq> None then Inr (fst res, replace k v (snd res))
      else case fst res of
        NullProto \<Rightarrow> Inr (NullProto, add_own (snd res) k v)
      | Initial \<Rightarrow>
          if k = ''__proto__'' then Inr (proto_setter res v)
          else Inr (Initial, add_own (snd res) k v)
      | Proto p \<Rightarrow>
          (case inherited_property h p k of
             Creates \<Rightarrow> Inr (Proto p, add_own (snd res) k v)
           | ReadOnly \<Rightarrow> Inl (AssignTypeError k)
           | ProtoAccessor \<Rightarrow> Inr (proto_setter res v)
           | Swallows \<Rightarrow> Inr res))"

text \<open>The object as a value.\<close>

fun object_value :: "object \<Rightarrow> js_value" where
  "object_value (Initial, ps) = JObject ps"
| "object_value (NullProto, ps) = JObjectProto None ps"
| "object_value (Proto p, ps) = JObjectProto (Some p) ps"

text \<open>
  \<^verbatim>\<open>buf.toString('utf8')\<close>. A string is carried as the bytes of its UTF-8 form, so bytes
  that are well-formed UTF-8 are the string they decode to. Bytes that are not are
  decoded as the platform's decoder does it: a byte that cannot start a sequence, and
  each longest run of bytes that starts a sequence and is cut short by the next byte or
  by the end, becomes one replacement character U+FFFD (the bytes ef bf bd), and
  decoding goes on at the byte that cut the sequence short. The second byte of a
  sequence is bounded by the first (e0 and ed, f0 and f4 narrow it), so that no overlong
  form, no surrogate and nothing above U+10FFFF is accepted.
\<close>

definition continuation :: "byte \<Rightarrow> bool" where
  "continuation b = (0x80 \<le> uint b \<and> uint b \<le> 0xBF)"

definition second_of_3 :: "byte \<Rightarrow> byte \<Rightarrow> bool" where
  "second_of_3 a b =
     (if uint a = 0xE0 then 0xA0 \<le> uint b \<and> uint b \<le> 0xBF
      else if uint a = 0xED then 0x80 \<le> uint b \<and> uint b \<le> 0x9F
      else continuation b)"

definition second_of_4 :: "byte \<Rightarrow> byte \<Rightarrow> bool" where
  "second_of_4 a b =
     (if uint a = 0xF0 then 0x90 \<le> uint b \<and> uint b \<le> 0xBF
      else if uint a = 0xF4 then 0x80 \<le> uint b \<and> uint b \<le> 0x8F
      else continuation b)"

definition replacement :: "byte list" where
  "replacement = [0xEF, 0xBF, 0xBD]"

fun utf8_decode :: "byte list \<Rightarrow> byte list" where
  "utf8_decode [] = []"
| "utf8_decode (a # bs) =
     (if uint a \<le> 0x7F then a # utf8_decode bs
      else if 0xC2 \<le> uint a \<and> uint a \<le> 0xDF then
        (case bs of
           [] \<Rightarrow> replacement
         | b # r \<Rightarrow>
             if \<not> continuation b then replacement @ utf8_decode bs
             else a # b # utf8_decode r)
      else if 0xE0 \<le> uint a \<and> uint a \<le> 0xEF then
        (case bs of
           [] \<Rightarrow> replacement
         | b # bs1 \<Rightarrow>
             if \<not> second_of_3 a b then replacement @ utf8_decode bs
             else (case bs1 of
                     [] \<Rightarrow> replacement
                   | c # r \<Rightarrow>
                       if \<not> continuation c then replacement @ utf8_decode bs1
                       else a # b # c # utf8_decode r))
      else if 0xF0 \<le> uint a \<and> uint a \<le> 0xF4 then
        (case bs of
           [] \<Rightarrow> replacement
         | b # bs1 \<Rightarrow>
             if \<not> second_of_4 a b then replacement @ utf8_decode bs
             else (case bs1 of
                     [] \<Rightarrow> replacement
                   | c # bs2 \<Rightarrow>
                       if \<not> continuation c then replacement @ utf8_decode bs1
                       else (case bs2 of
                               [] \<Rightarrow> replacement
                             | d # r \<Rightarrow>
                                 if \<not> continuation d then replacement @ utf8_decode bs2
                                 else a # b # c # d # utf8_decode r)))
      else replacement @ utf8_decode bs)"

definition toString_utf8 :: "byte list \<Rightarrow> string" where
  "toString_utf8 buf = map char_of_byte (utf8_decode buf)"

subsection \<open>The parser\<close>

text \<open>
  What becomes of a call of the parser: the callback is called with a value (and the tag
  that had no decoder, if any), with the bytes left in the stream; or it is called with
  an error; or an exception leaves the parser; or the stream has too few bytes and the
  callback waits.
\<close>

datatype outcome =
    Delivered js_value "int option" "byte list"
  | Failed error
  | Thrown error
  | Pending

text \<open>
  Modelled from the spec: \<^verbatim>\<open>wait\<close> of \<^verbatim>\<open>lib/BufferStream.js\<close>, which is not among the
  sources: with at least \<open>n\<close> bytes buffered it hands the next \<open>n\<close> bytes to the callback
  and takes them off the front; with fewer, the request stays pending (None).
\<close>

definition wait :: "int \<Rightarrow> byte list \<Rightarrow> (byte list \<times> byte list) option" where
  "wait n bs = (if n \<le> int (length bs) then Some (take (nat n) bs, drop (nat n) bs) else None)"

text \<open>
  A decoder of the tag table: one of the three the parser starts with, or a function of
  the caller, which is given the tag and the value and calls back with an error (here its
  message) or a value.
\<close>

datatype decoder =
    UnpackDate
  | UnpackUri
  | UnpackRegex
  | Custom "int \<Rightarrow> js_value \<Rightarrow> string + js_value"

definition unpackSmallNumber :: "int \<Rightarrow> byte list \<Rightarrow> byte list \<Rightarrow> outcome" where
  "unpackSmallNumber ai buf bs =
     (if ai \<le> 23 then
        (case Unallocated (JNumber (int_num ai)) of
           Inl e \<Rightarrow> Thrown e
         | Inr u \<Rightarrow> Delivered u None bs)
      else if ai = 24 then Delivered (JBool False) None bs
      else if ai = 25 then Delivered (JBool True) None bs
      else if ai = 26 then Delivered JNull None bs
      else if ai = 27 then Delivered JUndefined None bs
      else if ai = 28 then
        (case Unallocated (JNumber (int_num (buf_at buf 0))) of
           Inl e \<Rightarrow> Thrown e
         | Inr u \<Rightarrow> Delivered u None bs)
      else if ai = 29 then Delivered (JNumber (unpackHalf buf)) None bs
      else if ai = 30 then Delivered (JNumber (readFloatBE buf 0)) None bs
      else if ai = 31 then Delivered (JNumber (readDoubleBE buf 0)) None bs
      else Pending)"

definition unpackDate :: "host \<Rightarrow> int \<Rightarrow> js_value \<Rightarrow> byte list \<Rightarrow> outcome" where
  "unpackDate h tag obj bs =
     (case obj of
        JString s \<Rightarrow> Delivered (JDate (new_Date_string h s)) None bs
      | JNumber n \<Rightarrow> Delivered (JDate (new_Date_seconds h n)) None bs
      | _ \<Rightarrow> Failed (UnsupportedDateType (typeof obj)))"

definition unpackUri :: "host \<Rightarrow> int \<Rightarrow> js_value \<Rightarrow> byte list \<Rightarrow> outcome" where
  "unpackUri h tag obj bs =
     (case obj of
        JString s \<Rightarrow> Delivered (JUrl (url_parse h s)) None bs
      | _ \<Rightarrow> Failed (UnsupportedUriType (typeof obj)))"

definition unpackRegex :: "host \<Rightarrow> int \<Rightarrow> js_value \<Rightarrow> byte list \<Rightarrow> outcome" where
  "unpackRegex h tag obj bs =
     (case obj of
        JString s \<Rightarrow>
          (case new_RegExp h s of
             None \<Rightarrow> Thrown (RegExpSyntaxError s)
           | Some source \<Rightarrow> Delivered (JRegExp source) None bs)
      | _ \<Rightarrow> Failed (UnsupportedRegExpType (typeof obj)))"

text \<open>\<^verbatim>\<open>f.call(this, tag, obj, cb)\<close> for a decoder \<open>f\<close> of the table.\<close>

fun call_decoder :: "host \<Rightarrow> decoder \<Rightarrow> int \<Rightarrow> js_value \<Rightarrow> byte list \<Rightarrow> outcome" where
  "call_decoder h UnpackDate tag obj bs = unpackDate h tag obj bs"
| "call_decoder h UnpackUri tag obj bs = unpackUri h tag obj bs"
| "call_decoder h UnpackRegex tag obj bs = unpackRegex h tag obj bs"
| "call_decoder h (Custom f) tag obj bs =
     (case f tag obj of Inl e \<Rightarrow> Failed (DecoderError e) | Inr v \<Rightarrow> Delivered v None bs)"


text \<open>
  The parser is written with callbacks; here each function returns what its callback is
  called with. The stream \<open>bs\<close> is the list of the bytes not yet taken. The first
  argument after the platform and the tag table bounds the depth of the items: an item
  inside \<open>d\<close> arrays, maps and tags needs a bound above \<open>d\<close>, and None is returned where
  the bound is too small. \<^verbatim>\<open>unpack\<close> below starts with a bound above the number of
  bytes, which no depth reaches, since every item takes a byte.
\<close>

function unpack' ::
    "host \<Rightarrow> (int \<rightharpoonup> decoder) \<Rightarrow> nat \<Rightarrow> byte list \<Rightarrow> bool \<Rightarrow> outcome option"
  and getVal ::
    "host \<Rightarrow> (int \<rightharpoonup> decoder) \<Rightarrow> nat \<Rightarrow> int \<Rightarrow> int \<Rightarrow> byte list \<Rightarrow> bool \<Rightarrow> outcome option"
  and unpackSemanticTag ::
    "host \<Rightarrow> (int \<rightharpoonup> decoder) \<Rightarrow> nat \<Rightarrow> int \<Rightarrow> byte list \<Rightarrow> outcome option"
  and unpackArray ::
    "host \<Rightarrow> (int \<rightharpoonup> decoder) \<Rightarrow> nat \<Rightarrow> byte list \<Rightarrow> nat \<Rightarrow> js_value list \<Rightarrow> outcome option"
  and unpackMap ::
    "host \<Rightarrow> (int \<rightharpoonup> decoder) \<Rightarrow> nat \<Rightarrow> byte list \<Rightarrow> nat \<Rightarrow> object \<Rightarrow> outcome option"
where
  "unpack' h semanticTags 0 bs tagged = None"
| "unpack' h semanticTags (Suc d) bs tagged =
     (case wait 1 bs of
        None \<Rightarrow> Some Pending
      | Some (buf, bs1) \<Rightarrow>
          (let octet = buf_at buf 0;
               mt = js_sar octet 5;
               ai = js_and octet 0x1f;
               additionalBytes = ai - 28
           in if additionalBytes \<ge> 0 then
                (case wait (js_shl 1 additionalBytes) bs1 of
                   None \<Rightarrow> Some Pending
                 | Some (buf2, bs2) \<Rightarrow>
                     if mt = 6 then Some (unpackSmallNumber ai buf2 bs2)
                     else (case unpackInt ai buf2 of
                             Inl e \<Rightarrow> Some (Thrown e)
                           | Inr n \<Rightarrow> getVal h semanticTags d mt n bs2 tagged))
              else getVal h semanticTags d mt ai bs1 tagged))"
| "getVal h semanticTags d mt n bs tagged =
     (if mt = 0 then Some (Delivered (JNumber (int_num n)) None bs)
      else if mt = 1 then Some (Delivered (JNumber (int_num (double_int (- 1 - n)))) None bs)
      else if mt = 2 then
        (case wait n bs of
           None \<Rightarrow> Some Pending
         | Some (buf, bs') \<Rightarrow> Some (Delivered (JBuffer buf) None bs'))
      else if mt = 3 then
        (case wait n bs of
           None \<Rightarrow> Some Pending
         | Some (buf, bs') \<Rightarrow> Some (Delivered (JString (toString_utf8 buf)) None bs'))
      else if mt = 4 then unpackArray h semanticTags d bs (nat n) []
      else if mt = 5 then unpackMap h semanticTags d bs (nat n) (Initial, [])
      else if mt = 6 then Some (unpackSmallNumber n [] bs)
      else if mt = 7 then
        (if tagged then Some (Failed TagMustNotFollowTag)
         else unpackSemanticTag h semanticTags d n bs)
      else Some (Thrown InvalidState))"
| "unpackSemanticTag h semanticTags d tag bs =
     (case unpack' h semanticTags d bs True of
        None \<Rightarrow> None
      | Some (Delivered obj t bs') \<Rightarrow>
          (case semanticTags tag of
             Some f \<Rightarrow> Some (call_decoder h f tag obj bs')
           | None \<Rightarrow> Some (Delivered obj (Some tag) bs'))
      | Some other \<Rightarrow> Some other)"
| "unpackArray h semanticTags d bs 0 res = Some (Delivered (JArray res) None bs)"
| "unpackArray h semanticTags d bs (Suc left) res =
     (case unpack' h semanticTags d bs False of
        None \<Rightarrow> None
      | Some (Delivered obj t bs') \<Rightarrow> unpackArray h semanticTags d bs' left (res @ [obj])
      | Some other \<Rightarrow> Some other)"
| "unpackMap h semanticTags d bs 0 res = Some (Delivered (object_value res) None bs)"
| "unpackMap h semanticTags d bs (Suc left) res =
     (case unpack' h semanticTags d bs False of
        None \<Rightarrow> None
      | Some (Delivered key t bs1) \<Rightarrow>
          (case unpack' h semanticTags d bs1 False of
             None \<Rightarrow> None
           | Some (Delivered val t' bs2) \<Rightarrow>
               (case ToPropertyKey h key of
                  Inl e \<Rightarrow> Some (Thrown e)
                | Inr k \<Rightarrow>
                    (case js_set h res k val of
                       Inl e \<Rightarrow> Some (Thrown e)
                     | Inr res' \<Rightarrow> unpackMap h semanticTags d bs2 left res'))
           | Some other \<Rightarrow> Some other)
      | Some other \<Rightarrow> Some other)"
  by pat_completeness auto
termination
  by (relation "measures [
      (\<lambda>x. case x of
          Inl (Inl (h, t, d, bs, tg)) \<Rightarrow> 3 * d
        | Inl (Inr (h, t, d, mt, n, bs, tg)) \<Rightarrow> 3 * d + 2
        | Inr (Inl (h, t, d, tag, bs)) \<Rightarrow> 3 * d + 1
        | Inr (Inr (Inl (h, t, d, bs, left, res))) \<Rightarrow> 3 * d + 1
        | Inr (Inr (Inr (h, t, d, bs, left, res))) \<Rightarrow> 3 * d + 1),
      (\<lambda>x. case x of
          Inr (Inr (Inl (h, t, d, bs, left, res))) \<Rightarrow> left
        | Inr (Inr (Inr (h, t, d, bs, left, res))) \<Rightarrow> left
        | _ \<Rightarrow> 0)]") auto

text \<open>
  \<^verbatim>\<open>new Parser(options)\<close>: the table starts with the three decoders and takes the entries
  of \<^verbatim>\<open>options.psTags\<close> one by one through \<^verbatim>\<open>addSemanticTag\<close>.
\<close>

definition default_semanticTags :: "int \<rightharpoonup> decoder" where
  "default_semanticTags = [11 \<mapsto> UnpackDate, 15 \<mapsto> UnpackUri, 23 \<mapsto> UnpackRegex]"

definition Parser :: "(int \<times> decoder) list \<Rightarrow> (int \<rightharpoonup> decoder)" where
  "Parser psTags =
     foldl (\<lambda>semanticTags (tag, f). snd (addSemanticTag tag f semanticTags))
       default_semanticTags psTags"

text \<open>\<^verbatim>\<open>exports.unpack(input, options, cb)\<close> for a Buffer \<open>input\<close>.\<close>

definition unpack :: "host \<Rightarrow> (int \<times> decoder) list \<Rightarrow> byte list \<Rightarrow> outcome option" where
  "unpack h psTags input = unpack' h (Parser psTags) (Suc (length input)) input False"


subsection \<open>The statements of the specification\<close>

text \<open>
  A value that is an integer from 0 to 255: a number that is finite, whole and in the
  range. The negative zero is the integer 0.
\<close>

definition integer_0_255 :: "js_value \<Rightarrow> bool" where
  "integer_0_255 v =
     (case v of
        JNumber n \<Rightarrow>
          (case finite_value n of
             Some q \<Rightarrow> of_int \<lfloor>q\<rfloor> = q \<and> 0 \<le> q \<and> q \<le> 255
           | None \<Rightarrow> False)
      | _ \<Rightarrow> False)"


text \<open>
  The initial byte of an item: the major type in the high three bits, the additional
  information in the low five.
\<close>

definition initial_byte :: "int \<Rightarrow> int \<Rightarrow> byte" where
  "initial_byte mt ai = word_of_int (32 * mt + ai)"

text \<open>
  Half precision, in the words of the specification. \<open>w\<close> is the 16-bit value of the two
  bytes, the first byte high. The sign is taken from bit 15, the exponent from bits 14
  to 10, the mantissa from bits 9 to 0. With the exponent 0 the value is
  \<open>sign * 2^-24 * mantissa\<close>; with the exponent all ones it is NaN for a mantissa other
  than 0 and the infinity of that sign otherwise; in every other case it is
  \<open>sign * 2^(exp-25) * (1024 + mantissa)\<close>. A product that is zero keeps the sign.
\<close>

definition signed :: "int \<Rightarrow> rat \<Rightarrow> js_number" where
  "signed s a = (if a = 0 then (if s < 0 then NegZero else Fin 0) else Fin (of_int s * a))"

definition signed_infinity :: "int \<Rightarrow> js_number" where
  "signed_infinity s = (if s < 0 then NegInf else PosInf)"

definition half_spec :: "int \<Rightarrow> js_number" where
  "half_spec w =
     (let sign = (if bit w 15 then - 1 else 1);
          exp = take_bit 5 (drop_bit 10 w);
          mant = take_bit 10 w
      in if exp = 0 then signed sign (pow2 (- 24) * of_int mant)
         else if exp = 31 then (if mant \<noteq> 0 then NaN else signed_infinity sign)
         else signed sign (pow2 (exp - 25) * of_int (1024 + mant)))"

text \<open>
  The number of bytes that carry the operand after an initial byte: 1, 2, 4 or 8 for the
  additional information 0x1c, 0x1d, 0x1e or 0x1f, and none below.
\<close>

definition operand_width :: "byte \<Rightarrow> nat" where
  "operand_width b = (if 28 \<le> uint b mod 32 then 2 ^ nat (uint b mod 32 - 28) else 0)"

definition major_type :: "byte \<Rightarrow> int" where
  "major_type b = uint b div 32"

text \<open>
  The operand of an item whose initial byte is \<open>b\<close> and whose operand bytes are \<open>ops\<close>: the
  additional information itself below 0x1c, and what \<^verbatim>\<open>_unpackInt\<close> reads from the bytes
  otherwise.
\<close>

definition operand :: "byte \<Rightarrow> byte list \<Rightarrow> int" where
  "operand b ops =
     (if 28 \<le> uint b mod 32 then
        (case unpackInt (uint b mod 32) ops of Inr n \<Rightarrow> n | Inl e \<Rightarrow> 0)
      else uint b mod 32)"

text \<open>
  The bytes \<open>e\<close> are one item that \<^verbatim>\<open>unpack\<close>, given them alone, decodes to the value \<open>v\<close>.
\<close>

definition decodes :: "host \<Rightarrow> (int \<times> decoder) list \<Rightarrow> byte list \<Rightarrow> js_value \<Rightarrow> bool" where
  "decodes h psTags e v =
     (case unpack h psTags e of
        Some (Delivered v' g r) \<Rightarrow> v' = v \<and> r = []
      | _ \<Rightarrow> False)"

text \<open>
  What the parser delivers for the tag \<open>tag\<close> once the item under it has been decoded to
  \<open>obj\<close>: what the decoder registered for the tag makes of it, or, with no decoder, the
  value together with the tag.
\<close>

definition tagged_outcome ::
  "host \<Rightarrow> (int \<times> decoder) list \<Rightarrow> int \<Rightarrow> js_value \<Rightarrow> byte list \<Rightarrow> outcome" where
  "tagged_outcome h psTags tag obj rest =
     (case Parser psTags tag of
        Some f \<Rightarrow> call_decoder h f tag obj rest
      | None \<Rightarrow> Delivered obj (Some tag) rest)"

text \<open>
  The pairs of a map, each a key and a value already decoded, assigned one after the
  other to an object: the key is converted to a property key, then \<^verbatim>\<open>res[key] = val\<close>.
\<close>

fun store_pairs :: "host \<Rightarrow> object \<Rightarrow> (js_value \<times> js_value) list \<Rightarrow> error + object" where
  "store_pairs h res [] = Inr res"
| "store_pairs h res ((key, val) # kvs) =
     (case ToPropertyKey h key of
        Inl e \<Rightarrow> Inl e
      | Inr k \<Rightarrow>
          (case js_set h res k val of
             Inl e \<Rightarrow> Inl e
           | Inr res' \<Rightarrow> store_pairs h res' kvs))"

section \<open>Properties\<close>

subsection \<open>Numbers\<close>

lemma int32_id: "- 2147483648 \<le> n \<Longrightarrow> n < 2147483648 \<Longrightarrow> int32 n = n"
  unfolding int32_def by (rule signed_take_bit_int_eq_self) simp_all

lemma trunc_floor: "0 \<le> q \<Longrightarrow> trunc q = \<lfloor>q\<rfloor>"
  by (simp add: trunc_def)

lemma Unallocated_Fin:
  "Unallocated (JNumber (Fin q)) =
     (if of_int \<lfloor>q\<rfloor> = q \<and> 0 \<le> q \<and> q \<le> 255 then Inr (JUnallocated \<lfloor>q\<rfloor>)
      else Inl (NotSmallPositiveInteger (Fin q)))"
proof (cases "0 \<le> q \<and> q \<le> 255")
  case True
  then have f: "0 \<le> \<lfloor>q\<rfloor>" "\<lfloor>q\<rfloor> \<le> 255" by (simp_all add: floor_le_iff le_floor_iff)
  then have "int32 (trunc q) = \<lfloor>q\<rfloor>" using True by (simp add: trunc_floor int32_id)
  then show ?thesis using True
    by (auto simp: Unallocated_def js_lt_def js_gt_def js_sne_def js_seq_def int_num_def trunc_floor)
next
  case False
  then show ?thesis
    by (auto simp: Unallocated_def js_lt_def js_gt_def js_sne_def js_seq_def int_num_def)
qed


lemma js_shl_5: "0 \<le> mt \<Longrightarrow> mt \<le> 7 \<Longrightarrow> js_shl mt 5 = 32 * mt"
  by (simp add: js_shl_def int32_id push_bit_eq_mult)

lemma or_low5:
  assumes "0 \<le> x" "x < 32"
  shows "(32 * mt) OR x = 32 * mt + (x::int)"
proof -
  have "push_bit 5 mt + take_bit 5 x = push_bit 5 mt OR take_bit 5 x"
    by (rule disjunctive_add) (simp add: bit_simps)
  then show ?thesis
    using assms by (simp add: push_bit_eq_mult take_bit_int_eq_self mult.commute)
qed

lemma js_or_header:
  assumes "0 \<le> mt" "mt \<le> 7" "0 \<le> x" "x < 32"
  shows "js_or (32 * mt) x = 32 * mt + x"
  using assms by (simp add: js_or_def int32_id or_low5)

lemma uint_byte: "0 \<le> v \<Longrightarrow> v < 256 \<Longrightarrow> uint (word_of_int v :: byte) = v"
  by (simp add: uint_word_of_int take_bit_int_eq_self)

lemma uint_byte_mod: "uint (word_of_int v :: byte) = v mod 256"
  by (simp add: uint_word_of_int take_bit_eq_mod)

lemma be_uint_1: "0 \<le> i \<Longrightarrow> i < 256 \<Longrightarrow> be_uint [word_of_int i] = i"
  by (simp add: be_uint_def uint_byte)

lemma be_uint_2:
  "0 \<le> i \<Longrightarrow> i < 65536 \<Longrightarrow> be_uint [word_of_int (drop_bit 8 i), word_of_int i] = i"
  by (simp add: be_uint_def uint_byte_mod drop_bit_eq_div)

lemma be_uint_4:
  assumes "0 \<le> i" "i < 4294967296"
  shows "be_uint [word_of_int (drop_bit 24 i), word_of_int (drop_bit 16 i),
                  word_of_int (drop_bit 8 i), word_of_int i] = i"
proof -
  define q1 q2 q3 where "q1 = i div 256" and "q2 = q1 div 256" and "q3 = q2 div 256"
  define r0 r1 r2 where "r0 = i mod 256" and "r1 = q1 mod 256" and "r2 = q2 mod 256"
  have e: "i = q1 * 256 + r0" "q1 = q2 * 256 + r1" "q2 = q3 * 256 + r2"
    by (simp_all add: q1_def q2_def q3_def r0_def r1_def r2_def)
  have q: "i div 65536 = q2" "i div 16777216 = q3"
    by (simp_all add: q1_def q2_def q3_def zdiv_zmult2_eq)
  have "0 \<le> q3" "q3 < 256"
    using assms unfolding q(2) [symmetric]
    by (simp_all add: div_less_iff_less_mult pos_imp_zdiv_nonneg_iff)
  then have "q3 mod 256 = q3" by simp
  moreover have "((q3 * 256 + r2) * 256 + r1) * 256 + r0 = i"
    by (simp only: e [symmetric])
  ultimately have "((q3 mod 256 * 256 + r2) * 256 + r1) * 256 + r0 = i"
    by simp
  then show ?thesis
    by (simp add: be_uint_def uint_byte_mod drop_bit_eq_div q)
      (simp add: q1_def r0_def r1_def r2_def)
qed

subsection \<open>Integer framing\<close>

text \<open>
  C1. For a major type \<open>mt\<close> from 0 to 5 and an operand \<open>i\<close> that is not negative,
  \<^verbatim>\<open>_packInt\<close> appends: the single byte \<^verbatim>\<open>(mt<<5)|i\<close> when \<open>i\<close> is at most 0x1b; the byte
  \<^verbatim>\<open>(mt<<5)|0x1c\<close> and one byte holding \<open>i\<close> when \<open>i\<close> is at most 0xff; the byte
  \<^verbatim>\<open>(mt<<5)|0x1d\<close> and two bytes holding \<open>i\<close>, big-endian, when \<open>i\<close> is at most 0xffff; the
  byte \<^verbatim>\<open>(mt<<5)|0x1e\<close> and four bytes holding \<open>i\<close>, big-endian, when \<open>i\<close> is at most
  0x7fffffff; above that it fails with "Integer out of range".
\<close>

theorem packInt_framing:
  assumes "0 \<le> mt" "mt \<le> 5" "0 \<le> i"
  shows
    "(i \<le> 0x1b \<longrightarrow>
        (\<exists>b. packInt i mt bufs = Inr (bufs @ [b]) \<and> uint b = push_bit 5 mt OR i))
     \<and> (0x1b < i \<and> i \<le> 0xff \<longrightarrow>
        (\<exists>b p. packInt i mt bufs = Inr (bufs @ [b, p])
           \<and> uint b = push_bit 5 mt OR 0x1c \<and> be_uint [p] = i))
     \<and> (0xff < i \<and> i \<le> 0xffff \<longrightarrow>
        (\<exists>b p1 p2. packInt i mt bufs = Inr (bufs @ [b, p1, p2])
           \<and> uint b = push_bit 5 mt OR 0x1d \<and> be_uint [p1, p2] = i))
     \<and> (0xffff < i \<and> i \<le> 0x7fffffff \<longrightarrow>
        (\<exists>b p1 p2 p3 p4. packInt i mt bufs = Inr (bufs @ [b, p1, p2, p3, p4])
           \<and> uint b = push_bit 5 mt OR 0x1e \<and> be_uint [p1, p2, p3, p4] = i))
     \<and> (0x7fffffff < i \<longrightarrow> packInt i mt bufs = Inl (IntegerOutOfRange i))"
proof -
  have mt: "js_shl mt 5 = 32 * mt" using assms by (simp add: js_shl_5)
  have hd: "js_or (32 * mt) x = 32 * mt + x
            \<and> uint (word_of_int (32 * mt + x) :: byte) = push_bit 5 mt OR x"
    if "0 \<le> x" "x < 32" for x
  proof -
    from that assms have r: "0 \<le> 32 * mt + x" "32 * mt + x < 256" by auto
    have "uint (word_of_int (32 * mt + x) :: byte) = 32 * mt + x"
      by (rule uint_byte [OF r])
    moreover have "push_bit 5 mt OR x = 32 * mt + x"
      using or_low5 [OF that, of mt] by (simp add: push_bit_eq_mult mult.commute)
    ultimately show ?thesis
      using that assms js_or_header [of mt x] by simp
  qed
  show ?thesis
  proof (intro conjI impI)
    assume "i \<le> 0x1b"
    then show "\<exists>b. packInt i mt bufs = Inr (bufs @ [b]) \<and> uint b = push_bit 5 mt OR i"
      using hd [of i] assms by (simp add: packInt_def mt writeUInt8_def)
  next
    assume "0x1b < i \<and> i \<le> 0xff"
    then show "\<exists>b p. packInt i mt bufs = Inr (bufs @ [b, p])
           \<and> uint b = push_bit 5 mt OR 0x1c \<and> be_uint [p] = i"
      using hd [of "0x1c"] by (simp add: packInt_def mt writeUInt8_def be_uint_1)
  next
    assume "0xff < i \<and> i \<le> 0xffff"
    then show "\<exists>b p1 p2. packInt i mt bufs = Inr (bufs @ [b, p1, p2])
           \<and> uint b = push_bit 5 mt OR 0x1d \<and> be_uint [p1, p2] = i"
      using hd [of "0x1d"] by (simp add: packInt_def mt writeUInt8_def writeUInt16BE_def be_uint_2)
  next
    assume "0xffff < i \<and> i \<le> 0x7fffffff"
    then show "\<exists>b p1 p2 p3 p4. packInt i mt bufs = Inr (bufs @ [b, p1, p2, p3, p4])
           \<and> uint b = push_bit 5 mt OR 0x1e \<and> be_uint [p1, p2, p3, p4] = i"
      using hd [of "0x1e"] by (simp add: packInt_def mt writeUInt8_def writeUInt32BE_def be_uint_4)
  next
    assume "0x7fffffff < i"
    then show "packInt i mt bufs = Inl (IntegerOutOfRange i)"
      by (simp add: packInt_def)
  qed
qed

theorem packInt_framing_witness:
  "(\<exists>b p. packInt 255 0 [] = Inr [b, p] \<and> uint b = 0x1c \<and> be_uint [p] = 255)
   \<and> packInt 255 0 [] = Inr [0x1c, 0xff]
   \<and> packInt 65536 5 [] = Inr [0xbe, 0, 1, 0, 0]
   \<and> packInt 2147483648 0 [] = Inl (IntegerOutOfRange 2147483648)"
  using packInt_framing [of 0 255 "[]"]
  by (simp add: packInt_def js_shl_def js_or_def int32_def writeUInt8_def writeUInt32BE_def)

subsection \<open>Simple values\<close>

text \<open>
  C7. Constructing an \<^verbatim>\<open>Unallocated\<close> succeeds exactly when the argument is an integer
  from 0 to 255. With 256 and with -1 the constructor throws.
\<close>

theorem Unallocated_range:
  "((\<exists>u. Unallocated v = Inr u) \<longleftrightarrow> integer_0_255 v)
   \<and> Unallocated (JNumber (int_num 256)) = Inl (NotSmallPositiveInteger (int_num 256))
   \<and> Unallocated (JNumber (int_num (- 1))) = Inl (NotSmallPositiveInteger (int_num (- 1)))"
proof (intro conjI)
  show "(\<exists>u. Unallocated v = Inr u) \<longleftrightarrow> integer_0_255 v"
  proof (cases v)
    case (JNumber n)
    show ?thesis
    proof (cases n)
      case (Fin q)
      then show ?thesis using JNumber by (simp add: Unallocated_Fin integer_0_255_def)
    qed (simp_all add: JNumber Unallocated_def integer_0_255_def js_lt_def js_gt_def
           js_sne_def js_seq_def int_num_def)
  qed (simp_all add: Unallocated_def integer_0_255_def)
  show "Unallocated (JNumber (int_num 256)) = Inl (NotSmallPositiveInteger (int_num 256))"
    by (simp add: int_num_def Unallocated_Fin)
  show "Unallocated (JNumber (int_num (- 1))) = Inl (NotSmallPositiveInteger (int_num (- 1)))"
    by (simp add: int_num_def Unallocated_Fin)
qed

theorem Unallocated_range_witness:
  "(\<exists>u. Unallocated (JNumber (int_num 255)) = Inr u) \<and> integer_0_255 (JNumber (int_num 255))
   \<and> \<not> (\<exists>u. Unallocated (JNumber (int_num 256)) = Inr u)"
  using Unallocated_range [of "JNumber (int_num 255)"] Unallocated_range [of "JNumber (int_num 256)"]
  by (simp add: integer_0_255_def int_num_def)



subsection \<open>The registries\<close>

lemma addSemanticType_fst:
  "fst (addSemanticType type f reg) = (case map_of reg type of Some old \<Rightarrow> Value old | None \<Rightarrow> Null)"
  by (induction reg) (auto split: prod.splits)

lemma addSemanticType_map_of:
  "map_of (snd (addSemanticType type f reg)) = (map_of reg)(type \<mapsto> f)"
  by (induction reg) (auto split: prod.splits simp: fun_eq_iff)

lemma addSemanticType_absent:
  "map_of reg type = None \<Longrightarrow> snd (addSemanticType type f reg) = reg @ [(type, f)]"
  by (induction reg) (auto split: prod.splits if_splits)

lemma addSemanticType_present:
  "map_of reg type = Some old \<Longrightarrow> map fst (snd (addSemanticType type f reg)) = map fst reg"
  by (induction reg) (auto split: prod.splits if_splits)

text \<open>
  C8. \<^verbatim>\<open>addSemanticType\<close> and \<^verbatim>\<open>addSemanticTag\<close> return the entry they replace. With no
  entry to replace they return a null marker (the first \<^verbatim>\<open>null\<close>, the second the
  \<^verbatim>\<open>undefined\<close> that the table holds for an absent tag), and the new entry is registered:
  appended to the list of types, which otherwise keeps its types in place, and stored in
  the table of tags.
\<close>

theorem registry_returns:
  "fst (addSemanticType type f reg) =
     (case map_of reg type of Some old \<Rightarrow> Value old | None \<Rightarrow> Null)
   \<and> map_of (snd (addSemanticType type f reg)) = (map_of reg)(type \<mapsto> f)
   \<and> (case map_of reg type of
         Some old \<Rightarrow> map fst (snd (addSemanticType type f reg)) = map fst reg
       | None \<Rightarrow> snd (addSemanticType type f reg) = reg @ [(type, f)])
   \<and> fst (addSemanticTag tag g semanticTags) =
       (case semanticTags tag of Some old \<Rightarrow> Value old | None \<Rightarrow> Undefined)
   \<and> snd (addSemanticTag tag g semanticTags) = semanticTags(tag \<mapsto> g)"
  by (simp add: addSemanticType_fst addSemanticType_map_of addSemanticType_absent
        addSemanticType_present addSemanticTag_def split: option.split)

theorem registry_returns_witness:
  "addSemanticType (2::nat) (7::nat) [(1, 5), (2, 6)] = (Value 6, [(1, 5), (2, 7)])
   \<and> addSemanticType (3::nat) (7::nat) [(1, 5), (2, 6)] = (Null, [(1, 5), (2, 6), (3, 7)])
   \<and> fst (addSemanticTag 11 (7::nat) [11 \<mapsto> 5]) = Value 5
   \<and> fst (addSemanticTag 12 (7::nat) [11 \<mapsto> 5]) = Undefined"
  using registry_returns [of 2 "7::nat" "[(1::nat, 5), (2, 6)]" 11 "7::nat" "[11 \<mapsto> 5]"]
    registry_returns [of 3 "7::nat" "[(1::nat, 5), (2, 6)]" 12 "7::nat" "[11 \<mapsto> 5]"]
  by simp

subsection \<open>Booleans, null and undefined\<close>

text \<open>
  C6. Packing \<^verbatim>\<open>true\<close> emits the byte d9, \<^verbatim>\<open>false\<close> d8, \<^verbatim>\<open>null\<close> da and \<^verbatim>\<open>undefined\<close> db.
  These are the initial bytes of major type 6 with additional information 25, 24, 26 and
  27, and the parser delivers \<^verbatim>\<open>true\<close>, \<^verbatim>\<open>false\<close>, \<^verbatim>\<open>null\<close> and \<^verbatim>\<open>undefined\<close> for them.
\<close>

theorem simple_constants:
  "pack (JBool True) = Inr [0xd9]
   \<and> pack (JBool False) = Inr [0xd8]
   \<and> pack JNull = Inr [0xda]
   \<and> pack JUndefined = Inr [0xdb]
   \<and> unsafePack (JBool True) bufs = Inr (bufs @ [0xd9])
   \<and> unsafePack (JBool False) bufs = Inr (bufs @ [0xd8])
   \<and> unsafePack JNull bufs = Inr (bufs @ [0xda])
   \<and> unsafePack JUndefined bufs = Inr (bufs @ [0xdb])
   \<and> (js_sar 0xd8 5 = 6 \<and> js_and 0xd8 0x1f = 24)
   \<and> (js_sar 0xd9 5 = 6 \<and> js_and 0xd9 0x1f = 25)
   \<and> (js_sar 0xda 5 = 6 \<and> js_and 0xda 0x1f = 26)
   \<and> (js_sar 0xdb 5 = 6 \<and> js_and 0xdb 0x1f = 27)
   \<and> unpack h psTags (0xd8 # rest) = Some (Delivered (JBool False) None rest)
   \<and> unpack h psTags (0xd9 # rest) = Some (Delivered (JBool True) None rest)
   \<and> unpack h psTags (0xda # rest) = Some (Delivered JNull None rest)
   \<and> unpack h psTags (0xdb # rest) = Some (Delivered JUndefined None rest)"
  by (simp add: pack_def writeUInt8_def unpack_def wait_def buf_at_def js_sar_def js_and_def
        int32_def unpackSmallNumber_def)

theorem simple_constants_witness:
  "\<forall>h. unpack h [] [0xd8] = Some (Delivered (JBool False) None [])
     \<and> unpack h [] [0xd9] = Some (Delivered (JBool True) None [])
     \<and> unpack h [] [0xda] = Some (Delivered JNull None [])
     \<and> unpack h [] [0xdb] = Some (Delivered JUndefined None [])"
  using simple_constants [of "[]" _ "[]" "[]"] by simp

subsection \<open>The initial byte\<close>

lemma int32_byte: "int32 (uint (b::byte)) = uint b"
proof -
  have "uint b < 256" using uint_bounded [of b] by simp
  moreover have "0 \<le> uint b" by simp
  ultimately show ?thesis by (intro int32_id) linarith+
qed

lemma js_sar_byte: "js_sar (uint (b::byte)) 5 = uint b div 32"
  by (simp add: js_sar_def int32_byte drop_bit_eq_div)

lemma js_and_byte: "js_and (uint (b::byte)) 0x1f = uint b mod 32"
proof -
  have "uint b AND 31 = take_bit 5 (uint b)"
    using take_bit_eq_mask [of 5 "uint b"] by (simp add: mask_eq_exp_minus_1)
  moreover have "0 \<le> uint b mod 32" "uint b mod 32 < 32" by simp_all
  ultimately show ?thesis by (simp add: js_and_def int32_byte int32_id take_bit_eq_mod)
qed

lemma unpack'_Cons:
  "unpack' h t (Suc d) (b # bs) tagged =
     (let mt = uint b div 32; ai = uint b mod 32
      in if 28 \<le> ai then
           (case wait (js_shl 1 (ai - 28)) bs of
              None \<Rightarrow> Some Pending
            | Some (buf2, bs2) \<Rightarrow>
                if mt = 6 then Some (unpackSmallNumber ai buf2 bs2)
                else (case unpackInt ai buf2 of
                        Inl e \<Rightarrow> Some (Thrown e)
                      | Inr n \<Rightarrow> getVal h t d mt n bs2 tagged))
         else getVal h t d mt ai bs tagged)"
proof -
  have "wait 1 (b # bs) = Some ([b], bs)" by (simp add: wait_def)
  moreover have "buf_at [b] 0 = uint b" by (simp add: buf_at_def)
  ultimately show ?thesis
    by (simp add: js_sar_byte js_and_byte Let_def del: getVal.simps
          split: option.split sum.split)
qed


declare unpack'.simps(2) [simp del]

lemma uint_initial_byte:
  assumes "0 \<le> mt" "mt \<le> 7" "0 \<le> ai" "ai < 32"
  shows "uint (initial_byte mt ai) = 32 * mt + ai"
  unfolding initial_byte_def using assms by (intro uint_byte) linarith+

lemma initial_byte_fields:
  assumes "0 \<le> mt" "mt \<le> 7" "0 \<le> ai" "ai < 32"
  shows "uint (initial_byte mt ai) div 32 = mt" "uint (initial_byte mt ai) mod 32 = ai"
  using assms by (simp_all add: uint_initial_byte)

lemma packInt_initial:
  assumes "0 \<le> mt" "mt \<le> 7" "0 \<le> i"
  shows "packInt i mt bufs =
     (if i \<le> 0x1b then Inr (bufs @ [initial_byte mt i])
      else if i \<le> 0xff then Inr (bufs @ [initial_byte mt 0x1c, word_of_int i])
      else if i \<le> 0xffff then
        Inr (bufs @ [initial_byte mt 0x1d, word_of_int (drop_bit 8 i), word_of_int i])
      else if i \<le> 0x7fffffff then
        Inr (bufs @ [initial_byte mt 0x1e, word_of_int (drop_bit 24 i),
                     word_of_int (drop_bit 16 i), word_of_int (drop_bit 8 i), word_of_int i])
      else Inl (IntegerOutOfRange i))"
proof -
  have "js_or (32 * mt) x = 32 * mt + x" if "0 \<le> x" "x < 32" for x
    using that assms by (simp add: js_or_header)
  from this [of i] this [of "0x1c"] this [of "0x1d"] this [of "0x1e"] show ?thesis
    using assms
    by (simp add: packInt_def js_shl_5 initial_byte_def writeUInt8_def writeUInt16BE_def
          writeUInt32BE_def)
qed

lemma double_int_small: "\<bar>n\<bar> < 2 ^ 53 \<Longrightarrow> double_int n = n"
  by (simp add: double_int_def bitlen_le_iff_power)

lemma js_shl_1: "js_shl 1 0 = 1" "js_shl 1 1 = 2" "js_shl 1 2 = 4" "js_shl 1 3 = 8"
  by (simp_all add: js_shl_def int32_def)

lemma packInt_unpack':
  assumes "0 \<le> n" "n \<le> 0x7fffffff" "0 \<le> mt" "mt \<le> 7" "mt \<noteq> 6"
  shows "\<exists>hdr. packInt n mt bufs = Inr (bufs @ hdr)
           \<and> (\<forall>h t d rest tagged.
                 unpack' h t (Suc d) (hdr @ rest) tagged = getVal h t d mt n rest tagged)"
proof -
  note f = initial_byte_fields [OF assms(3,4)]
  consider "n \<le> 0x1b" | "0x1b < n" "n \<le> 0xff" | "0xff < n" "n \<le> 0xffff"
    | "0xffff < n" "n \<le> 0x7fffffff"
    using assms by linarith
  then show ?thesis
  proof cases
    case 1
    then show ?thesis
      using assms f [of n]
      by (simp add: packInt_initial unpack'_Cons Let_def del: getVal.simps)
  next
    case 2
    then show ?thesis
      using assms f [of "0x1c"] be_uint_1 [of n]
      by (simp add: packInt_initial unpack'_Cons Let_def js_shl_1 wait_def unpackInt_def
            readUInt8_def del: getVal.simps)
  next
    case 3
    then show ?thesis
      using assms f [of "0x1d"] be_uint_2 [of n]
      by (simp add: packInt_initial unpack'_Cons Let_def js_shl_1 wait_def unpackInt_def
            readUInt16BE_def del: getVal.simps)
  next
    case 4
    then show ?thesis
      using assms f [of "0x1e"] be_uint_4 [of n]
      by (simp add: packInt_initial unpack'_Cons Let_def js_shl_1 wait_def unpackInt_def
            readUInt32BE_def del: getVal.simps)
  qed
qed


subsection \<open>Integers, there and back\<close>

lemma trunc_of_int: "trunc (of_int i) = i"
  by (simp add: trunc_def)

lemma packNumber_int32:
  assumes "- 2147483648 \<le> i" "i \<le> 2147483647"
  shows "packNumber (int_num i) bufs =
           (if 0 \<le> i then packInt i 0 bufs else packInt (- i - 1) 1 bufs)"
  using assms
  by (simp add: packNumber_def isNaN_def int_num_def trunc_of_int int32_id js_seq_def js_ge_def
        js_le_def)

lemma getVal_0: "getVal h t d 0 n bs tagged = Some (Delivered (JNumber (int_num n)) None bs)"
  by simp

lemma getVal_1:
  "getVal h t d 1 n bs tagged = Some (Delivered (JNumber (int_num (double_int (- 1 - n)))) None bs)"
  by simp

text \<open>
  C2. For every integer \<open>i\<close> from \<open>-2^31\<close> to \<open>2^31 - 1\<close>, \<^verbatim>\<open>pack\<close> frames \<open>i\<close> under major
  type 0 when it is not negative and \<open>-i-1\<close> under major type 1 when it is, and \<^verbatim>\<open>unpack\<close>,
  given the bytes, delivers \<open>i\<close> and leaves no byte.
\<close>

theorem integer_round_trip:
  assumes "- (2 ^ 31) \<le> i" "i \<le> 2 ^ 31 - 1"
  shows "pack (JNumber (int_num i)) = (if 0 \<le> i then packInt i 0 [] else packInt (- i - 1) 1 [])
     \<and> (\<exists>bytes. pack (JNumber (int_num i)) = Inr bytes
           \<and> unpack h psTags bytes = Some (Delivered (JNumber (int_num i)) None []))"
proof (cases "0 \<le> i")
  case True
  with assms obtain hdr where
    "packInt i 0 [] = Inr ([] @ hdr)"
    "\<And>h t d rest tagged. unpack' h t (Suc d) (hdr @ rest) tagged = getVal h t d 0 i rest tagged"
    using packInt_unpack' [of i 0 "[]"] by auto
  from this(1) this(2) [of h "Parser psTags" "length hdr" "[]" False] show ?thesis
    using True assms by (simp add: pack_def packNumber_int32 unpack_def)
next
  case False
  with assms obtain hdr where
    "packInt (- i - 1) 1 [] = Inr ([] @ hdr)"
    "\<And>h t d rest tagged.
       unpack' h t (Suc d) (hdr @ rest) tagged = getVal h t d 1 (- i - 1) rest tagged"
    using packInt_unpack' [of "- i - 1" 1 "[]"] by auto
  moreover have "double_int i = i" using assms by (intro double_int_small) simp
  ultimately show ?thesis
    using False assms \<open>\<And>h t d rest tagged.
       unpack' h t (Suc d) (hdr @ rest) tagged = getVal h t d 1 (- i - 1) rest tagged\<close>
         [of h "Parser psTags" "length hdr" "[]" False]
    by (simp add: pack_def packNumber_int32 unpack_def)
qed

theorem integer_round_trip_witness:
  "\<forall>h. pack (JNumber (int_num (- 2147483648))) = Inr [0x3e, 0x7f, 0xff, 0xff, 0xff]
     \<and> unpack h [] [0x3e, 0x7f, 0xff, 0xff, 0xff]
         = Some (Delivered (JNumber (int_num (- 2147483648))) None [])"
proof -
  have "pack (JNumber (int_num (- 2147483648))) = Inr [0x3e, 0x7f, 0xff, 0xff, 0xff]"
    by (simp add: pack_def packNumber_int32 packInt_initial initial_byte_def)
  with integer_round_trip [of "- 2147483648" _ "[]"] show ?thesis
    by simp
qed


subsection \<open>Integers beyond 32 bits\<close>

lemma int32_range: "- 2147483648 \<le> int32 n" "int32 n < 2147483648"
  using signed_take_bit_int_greater_eq_minus_exp [of 31 n] signed_take_bit_int_less_exp [of 31 n]
  by (simp_all add: int32_def)

lemma packNumber_beyond_int32:
  assumes "i < - 2147483648 \<or> 2147483647 < i"
  shows "packNumber (int_num i) bufs = Inr (writeDoubleBE (int_num i) (bufs @ [0xdf]))"
proof -
  have "int32 i \<noteq> i" using assms int32_range [of i] by auto
  then show ?thesis
    by (simp add: packNumber_def int_num_def trunc_of_int js_seq_def writeUInt8_def)
qed

text \<open>
  C3, as the specification states it: packing the number \<open>2^31\<close> fails with an
  integer-out-of-range error. It does not: \<^verbatim>\<open>2147483648|0\<close> is \<open>-2147483648\<close>, so the number
  is not framed as an integer; \<^verbatim>\<open>pack\<close> returns the byte df and the eight bytes of the
  double.
\<close>

theorem pack_2_31_counterexample:
  "pack (JNumber (int_num 2147483648)) = Inr [0xdf, 0x41, 0xe0, 0, 0, 0, 0, 0, 0]
   \<and> pack (JNumber (int_num 2147483648)) \<noteq> Inl (IntegerOutOfRange 2147483648)"
proof -
  have "double_bits (Fin 2147483648) = 0x41E0000000000000"
    by code_simp
  then have "writeDoubleBE (int_num 2147483648) [0xdf] = [0xdf, 0x41, 0xe0, 0, 0, 0, 0, 0, 0]"
    by (simp add: writeDoubleBE_def int_num_def)
  with packNumber_beyond_int32 [of 2147483648 "[]"]
  have "pack (JNumber (int_num 2147483648)) = Inr [0xdf, 0x41, 0xe0, 0, 0, 0, 0, 0, 0]"
    by (simp add: pack_def)
  then show ?thesis by simp
qed

text \<open>
  C3, amended. Packing an integer \<open>i\<close> from \<open>2^31\<close> on does not fail: \<^verbatim>\<open>pack\<close> returns the
  byte df followed by the eight bytes of the double \<open>i\<close>, big-endian. The
  integer-out-of-range error is that of \<^verbatim>\<open>_packInt\<close>, given \<open>i\<close> as its operand.
\<close>

theorem pack_beyond_int32:
  assumes "2 ^ 31 \<le> i"
  shows "pack (JNumber (int_num i)) = Inr (writeDoubleBE (int_num i) [0xdf])
     \<and> packInt i mt bufs = Inl (IntegerOutOfRange i)"
  using assms by (simp add: pack_def packNumber_beyond_int32 packInt_def)

theorem pack_beyond_int32_witness:
  "pack (JNumber (int_num 4294967296)) = Inr [0xdf, 0x41, 0xf0, 0, 0, 0, 0, 0, 0]
   \<and> packInt 4294967296 2 [] = Inl (IntegerOutOfRange 4294967296)"
proof -
  have "double_bits (Fin 4294967296) = 0x41F0000000000000"
    by code_simp
  then have "writeDoubleBE (int_num 4294967296) [0xdf] = [0xdf, 0x41, 0xf0, 0, 0, 0, 0, 0, 0]"
    by (simp add: writeDoubleBE_def int_num_def)
  with pack_beyond_int32 [of 4294967296 2 "[]"] show ?thesis
    by simp
qed


subsection \<open>Half precision\<close>

lemma int32_small: "0 \<le> n \<Longrightarrow> n < 65536 \<Longrightarrow> int32 n = n"
  by (rule int32_id) linarith+

lemma half_word:
  "be_uint [b0, b1] = push_bit 8 (uint b0) OR take_bit 8 (uint b1)"
proof -
  have "push_bit 8 (uint b0) + take_bit 8 (uint b1) = push_bit 8 (uint b0) OR take_bit 8 (uint b1)"
    by (rule disjunctive_add) (simp add: bit_simps)
  moreover have "take_bit 8 (uint b1) = uint b1"
    using uint_bounded [of b1] by (simp add: take_bit_int_eq_self)
  ultimately show ?thesis
    by (simp add: be_uint_def push_bit_eq_mult)
qed

lemma and_byte_bounds:
  "0 \<le> k \<Longrightarrow> 0 \<le> uint (b::byte) AND k" "0 \<le> k \<Longrightarrow> k < 256 \<Longrightarrow> uint (b::byte) AND k < 65536"
proof -
  assume "0 \<le> k" then show "0 \<le> uint b AND k" by simp
next
  assume k: "0 \<le> k" "k < 256"
  then have "uint b AND k \<le> k" by (simp add: AND_upper2')
  then show "uint b AND k < 65536" using k by linarith
qed

lemma js_and_byte_const:
  "0 \<le> k \<Longrightarrow> k < 256 \<Longrightarrow> js_and (uint (b::byte)) k = uint b AND k"
  using and_byte_bounds [of k b]
  by (simp add: js_and_def int32_byte int32_small)

lemma half_sign: "(js_and (uint (b0::byte)) 0x80 \<noteq> 0) = bit (be_uint [b0, b1]) 15"
proof -
  have "uint b0 AND 128 = uint b0 AND 2 ^ 7" by simp
  then have "(uint b0 AND 128 \<noteq> 0) = bit (uint b0) 7"
    by (simp only: and_exp_eq_0_iff_not_bit) simp
  moreover have "bit (be_uint [b0, b1]) 15 = bit (uint b0) 7"
    unfolding half_word by (simp add: bit_simps)
  ultimately show ?thesis
    by (simp add: js_and_byte_const)
qed

lemma half_exp:
  "js_sar (js_and (uint (b0::byte)) 0x7C) 2 = take_bit 5 (drop_bit 10 (be_uint [b0, b1]))"
proof -
  have m: "(124::int) = push_bit 2 (mask 5)" by (simp add: mask_eq_exp_minus_1)
  have "drop_bit 2 (uint b0 AND 124) = take_bit 5 (drop_bit 2 (uint b0))"
    unfolding m by (rule bit_eqI) (auto simp add: bit_simps)
  moreover have "drop_bit 10 (be_uint [b0, b1]) = drop_bit 2 (uint b0)"
    unfolding half_word by (rule bit_eqI) (auto simp add: bit_simps)
  moreover have "int32 (uint b0 AND 124) = uint b0 AND 124"
    using and_byte_bounds [of 124 b0] by (simp add: int32_small)
  ultimately show ?thesis
    by (simp add: js_sar_def js_and_byte_const)
qed

lemma half_mant:
  "js_or (js_shl (js_and (uint (b0::byte)) 0x03) 8) (uint (b1::byte)) = take_bit 10 (be_uint [b0, b1])"
proof -
  have m: "(3::int) = mask 2" by (simp add: mask_eq_exp_minus_1)
  have a: "uint b0 AND 3 = take_bit 2 (uint b0)"
    unfolding m by (simp add: take_bit_eq_mask)
  have r: "0 \<le> take_bit 2 (uint b0)" "take_bit 2 (uint b0) < 4"
    by (simp_all add: take_bit_eq_mod)
  then have s: "0 \<le> push_bit 8 (take_bit 2 (uint b0))" "push_bit 8 (take_bit 2 (uint b0)) < 1024"
    by (simp_all add: push_bit_eq_mult)
  have u: "take_bit 8 (uint b1) = uint b1"
    using uint_bounded [of b1] by (simp add: take_bit_int_eq_self)
  have t: "take_bit 10 (be_uint [b0, b1]) = push_bit 8 (take_bit 2 (uint b0)) OR uint b1"
    unfolding half_word by (subst (2) u [symmetric], rule bit_eqI) (auto simp add: bit_simps)
  have v: "0 \<le> push_bit 8 (take_bit 2 (uint b0)) OR uint b1"
    "push_bit 8 (take_bit 2 (uint b0)) OR uint b1 < 1024"
    unfolding t [symmetric] by (simp_all add: take_bit_eq_mod)
  have "js_and (uint b0) 3 = take_bit 2 (uint b0)"
    by (simp add: js_and_byte_const a)
  moreover have "js_shl (take_bit 2 (uint b0)) 8 = push_bit 8 (take_bit 2 (uint b0))"
    using r s by (simp add: js_shl_def int32_small)
  moreover have "js_or (push_bit 8 (take_bit 2 (uint b0))) (uint b1) =
      push_bit 8 (take_bit 2 (uint b0)) OR uint b1"
    using s v by (simp add: js_or_def int32_small int32_byte)
  ultimately show ?thesis by (simp add: t)
qed


lemma js_mul_sign_finite:
  assumes "s = 1 \<or> s = - 1" "0 < c"
  shows "js_mul (js_mul (int_num s) (Fin c)) (int_num m) = signed s (c * of_int m)"
  using assms by (auto simp: js_mul_def int_num_def signed_def)

lemma js_mul_sign_special:
  assumes "s = 1 \<or> s = - 1"
  shows "js_mul (int_num s) NaN = NaN" "js_mul (int_num s) PosInf = signed_infinity s"
  using assms by (auto simp: js_mul_def int_num_def signed_infinity_def)

lemma pow2_pos: "0 < pow2 e"
  by (simp add: pow2_def)

lemma literal_2_24: "(59604644775390625 / 10 ^ 24 :: rat) = pow2 (- 24)"
  by (simp add: pow2_def)

lemma unpackHalf_eq: "unpackHalf [b0, b1] = half_spec (be_uint [b0, b1])"
proof -
  have b: "buf_at [b0, b1] 0 = uint b0" "buf_at [b0, b1] 1 = uint b1"
    by (simp_all add: buf_at_def)
  define sign :: int where "sign = (if bit (be_uint [b0, b1]) 15 then - 1 else 1)"
  have sg: "sign = 1 \<or> sign = - 1" by (simp add: sign_def)
  show ?thesis
    unfolding unpackHalf_def half_spec_def b half_sign [of b0 b1] half_exp [of b0 b1]
      half_mant [of b0 b1] literal_2_24 Math_pow2_def Let_def sign_def [symmetric]
    using sg
    by (simp add: js_mul_sign_finite js_mul_sign_special pow2_pos)
qed


text \<open>
  C4. For every two bytes, \<^verbatim>\<open>_unpackHalf\<close> returns the number the specification describes:
  sign from bit 15, exponent from bits 14 to 10, mantissa from bits 9 to 0;
  \<open>sign * 2^-24 * mant\<close> for the exponent 0, NaN or the signed infinity for the exponent
  all ones, \<open>sign * 2^(exp-25) * (1024 + mant)\<close> otherwise. So 0000 decodes to 0, 8000 to
  -0, 0400 to 6.103515625e-5, 7c00 and fc00 to the infinities, 3c00 to 1, c000 to -2 and
  7bff to 65504.
\<close>

theorem unpackHalf_values:
  "unpackHalf [b0, b1] = half_spec (be_uint [b0, b1])
   \<and> unpackHalf [0x00, 0x00] = Fin 0
   \<and> unpackHalf [0x80, 0x00] = NegZero
   \<and> unpackHalf [0x04, 0x00] = Fin (6103515625 / 10 ^ 14)
   \<and> unpackHalf [0x7c, 0x00] = PosInf
   \<and> unpackHalf [0xfc, 0x00] = NegInf
   \<and> unpackHalf [0x7c, 0x01] = NaN
   \<and> unpackHalf [0x3c, 0x00] = Fin 1
   \<and> unpackHalf [0xc0, 0x00] = Fin (- 2)
   \<and> unpackHalf [0x7b, 0xff] = Fin 65504"
proof (intro conjI)
  show "unpackHalf [b0, b1] = half_spec (be_uint [b0, b1])" by (rule unpackHalf_eq)
  show "unpackHalf [0x00, 0x00] = Fin 0" by code_simp
  show "unpackHalf [0x80, 0x00] = NegZero" by code_simp
  show "unpackHalf [0x04, 0x00] = Fin (6103515625 / 10 ^ 14)" by code_simp
  show "unpackHalf [0x7c, 0x00] = PosInf" by code_simp
  show "unpackHalf [0xfc, 0x00] = NegInf" by code_simp
  show "unpackHalf [0x7c, 0x01] = NaN" by code_simp
  show "unpackHalf [0x3c, 0x00] = Fin 1" by code_simp
  show "unpackHalf [0xc0, 0x00] = Fin (- 2)" by code_simp
  show "unpackHalf [0x7b, 0xff] = Fin 65504" by code_simp
qed

theorem unpackHalf_values_witness:
  "unpackHalf [0x7b, 0xff] = half_spec 0x7bff \<and> half_spec 0x7bff = Fin 65504
   \<and> unpackHalf [0x00, 0x01] = half_spec 0x0001 \<and> half_spec 0x0001 = Fin (1 / 2 ^ 24)
   \<and> unpackHalf [0xfe, 0x00] = half_spec 0xfe00 \<and> half_spec 0xfe00 = NaN"
proof -
  have "be_uint [0x7b, 0xff] = 0x7bff" "be_uint [0x00, 0x01] = 0x0001" "be_uint [0xfe, 0x00] = 0xfe00"
    by (simp_all add: be_uint_def)
  moreover have "half_spec 0x7bff = Fin 65504" "half_spec 0x0001 = Fin (1 / 2 ^ 24)"
    "half_spec 0xfe00 = NaN"
    by code_simp+
  ultimately show ?thesis
    using unpackHalf_values [of "0x7b" "0xff"] unpackHalf_values [of "0x00" "0x01"]
      unpackHalf_values [of "0xfe" "0x00"]
    by simp
qed


subsection \<open>The additional information\<close>

lemma js_and_31_range: "0 \<le> js_and x 0x1f" "js_and x 0x1f \<le> 31"
proof -
  have a: "0 \<le> int32 x AND 31" by simp
  have b: "int32 x AND 31 \<le> 31" by (simp add: AND_upper2')
  from a b have "int32 (int32 x AND 31) = int32 x AND 31" by (simp add: int32_small)
  moreover have "int32 31 = 31" by (simp add: int32_def)
  ultimately show "0 \<le> js_and x 0x1f" "js_and x 0x1f \<le> 31"
    using a b by (simp_all add: js_and_def)
qed

lemma unpackInt_total:
  assumes "28 \<le> ai" "ai \<le> 31"
  shows "\<exists>n. unpackInt ai buf = Inr n"
proof -
  from assms consider "ai = 28" | "ai = 29" | "ai = 30" | "ai = 31" by linarith
  then show ?thesis by cases (simp_all add: unpackInt_def Let_def)
qed

lemma Unallocated_error: "Unallocated v = Inl e \<Longrightarrow> e \<noteq> InvalidAdditionalInfo k"
  by (auto simp: Unallocated_def split: js_value.splits if_splits)

lemma unpackSmallNumber_error:
  "unpackSmallNumber ai buf bs \<noteq> Thrown (InvalidAdditionalInfo k)"
  by (auto simp: unpackSmallNumber_def dest: Unallocated_error split: sum.splits)

lemma call_decoder_error: "call_decoder h f tag obj bs \<noteq> Thrown (InvalidAdditionalInfo k)"
  by (cases f)
    (auto simp: unpackDate_def unpackUri_def unpackRegex_def
      split: js_value.splits option.splits sum.splits)

lemma ToPropertyKey_error: "ToPropertyKey h v = Inl e \<Longrightarrow> e \<noteq> InvalidAdditionalInfo k"
  by (cases v) (auto simp: toString_Unallocated_def Let_def split: option.splits if_splits)

lemma js_set_error: "js_set h res k' v = Inl e \<Longrightarrow> e \<noteq> InvalidAdditionalInfo k"
  by (auto simp: js_set_def split: if_splits prototype.splits inherited.splits)

lemma unpack'_Nil: "unpack' h t (Suc d) [] tagged = Some Pending"
  by (simp add: unpack'.simps(2) wait_def)

lemma unpackArray_no_invalid_ai:
  assumes "\<And>bs tagged. unpack' h t d bs tagged \<noteq> Some (Thrown (InvalidAdditionalInfo k))"
  shows "unpackArray h t d bs left res \<noteq> Some (Thrown (InvalidAdditionalInfo k))"
  using assms
  by (induction left arbitrary: bs res) (auto split: option.splits outcome.splits)

lemma unpackMap_no_invalid_ai:
  assumes "\<And>bs tagged. unpack' h t d bs tagged \<noteq> Some (Thrown (InvalidAdditionalInfo k))"
  shows "unpackMap h t d bs left ps \<noteq> Some (Thrown (InvalidAdditionalInfo k))"
  using assms
  by (induction left arbitrary: bs ps)
    (auto dest: ToPropertyKey_error js_set_error split: option.splits outcome.splits sum.splits)

lemma unpackSemanticTag_no_invalid_ai:
  assumes "\<And>bs tagged. unpack' h t d bs tagged \<noteq> Some (Thrown (InvalidAdditionalInfo k))"
  shows "unpackSemanticTag h t d tag bs \<noteq> Some (Thrown (InvalidAdditionalInfo k))"
  using assms [of bs True]
  by (auto simp: call_decoder_error split: option.splits outcome.splits)

lemma getVal_no_invalid_ai:
  assumes "\<And>bs tagged. unpack' h t d bs tagged \<noteq> Some (Thrown (InvalidAdditionalInfo k))"
  shows "getVal h t d mt n bs tagged \<noteq> Some (Thrown (InvalidAdditionalInfo k))"
  using unpackArray_no_invalid_ai [OF assms] unpackMap_no_invalid_ai [OF assms]
    unpackSemanticTag_no_invalid_ai [OF assms]
  by (auto simp: unpackSmallNumber_error split: option.splits)

lemma unpack'_no_invalid_ai:
  "unpack' h t d bs tagged \<noteq> Some (Thrown (InvalidAdditionalInfo k))"
proof (induction d arbitrary: bs tagged)
  case 0
  show ?case by simp
next
  case (Suc d)
  note g = getVal_no_invalid_ai [OF Suc.IH]
  show ?case
  proof (cases bs)
    case Nil
    then show ?thesis by (simp add: unpack'_Nil)
  next
    case (Cons b bs')
    have "uint b mod 32 \<le> 31" by simp
    then have "unpackInt (uint b mod 32) buf \<noteq> Inl e" if "28 \<le> uint b mod 32" for buf e
      using that unpackInt_total [of "uint b mod 32" buf] by auto
    then show ?thesis
      using g unpackSmallNumber_error
      by (auto simp: Cons unpack'_Cons Let_def simp del: getVal.simps
            split: option.splits sum.splits)
  qed
qed


text \<open>
  C9. The additional information \<^verbatim>\<open>octet & 0x1f\<close> of an initial byte lies between 0 and
  31. \<^verbatim>\<open>_unpackInt\<close> is called only where \<^verbatim>\<open>ai - 28 >= 0\<close>, that is with 28, 29, 30 or 31,
  and returns a number for each of them. So on no input does the parser throw the
  "Invalid additional info" assertion.
\<close>

theorem invalid_additional_info_unreachable:
  "0 \<le> js_and octet 0x1f \<and> js_and octet 0x1f \<le> 31
   \<and> (0 \<le> js_and octet 0x1f - 28 \<longrightarrow>
        js_and octet 0x1f \<in> {28, 29, 30, 31}
        \<and> (\<exists>n. unpackInt (js_and octet 0x1f) buf = Inr n))
   \<and> unpack' h semanticTags d bs tagged \<noteq> Some (Thrown (InvalidAdditionalInfo k))
   \<and> unpack h psTags input \<noteq> Some (Thrown (InvalidAdditionalInfo k))"
proof -
  have "js_and octet 0x1f \<in> {28, 29, 30, 31}" if "0 \<le> js_and octet 0x1f - 28"
    using that js_and_31_range(2) [of octet] by auto
  moreover have "\<exists>n. unpackInt (js_and octet 0x1f) buf = Inr n" if "0 \<le> js_and octet 0x1f - 28"
    using that js_and_31_range(2) [of octet] by (intro unpackInt_total) simp_all
  ultimately show ?thesis
    using js_and_31_range [of octet] by (simp add: unpack'_no_invalid_ai unpack_def)
qed

theorem invalid_additional_info_unreachable_witness:
  "\<forall>h. 0 \<le> js_and 0x1c 0x1f - 28
     \<and> unpackInt (js_and 0x1c 0x1f) [0xff] = Inr 255
     \<and> unpack h [] [0x1c, 0xff] = Some (Delivered (JNumber (int_num 255)) None [])
     \<and> unpack h [] [0x1c, 0xff] \<noteq> Some (Thrown (InvalidAdditionalInfo 28))"
proof -
  have a: "js_and 0x1c 0x1f = 28" by (simp add: js_and_def int32_def)
  have "unpackInt 28 [0xff] = Inr 255"
    by (simp add: unpackInt_def readUInt8_def be_uint_def)
  moreover have "unpack h [] [0x1c, 0xff] = Some (Delivered (JNumber (int_num 255)) None [])" for h
    by (simp add: unpack_def unpack'_Cons js_shl_1 wait_def unpackInt_def readUInt8_def
          be_uint_def)
  ultimately show ?thesis
    using invalid_additional_info_unreachable [of "0x1c" "[0xff]" _ _ _ _ _ 28 "[]" "[0x1c, 0xff]"]
    by (simp add: a)
qed


subsection \<open>Tags\<close>

lemma wait_append: "wait n bs = Some (buf, r) \<Longrightarrow> wait n (bs @ m) = Some (buf, r @ m)"
  by (auto simp: wait_def split: if_splits)

lemma unpackSmallNumber_append:
  "unpackSmallNumber ai buf bs = Delivered v g r
    \<Longrightarrow> unpackSmallNumber ai buf (bs @ m) = Delivered v g (r @ m)"
  by (auto simp: unpackSmallNumber_def split: if_splits sum.splits)

lemma call_decoder_append:
  "call_decoder h f tag obj bs = Delivered v g r
    \<Longrightarrow> call_decoder h f tag obj (bs @ m) = Delivered v g (r @ m)"
  by (cases f)
    (auto simp: unpackDate_def unpackUri_def unpackRegex_def
      split: js_value.splits option.splits sum.splits)

lemma unpackArray_append:
  assumes "\<And>bs tg v g r. unpack' h t d bs tg = Some (Delivered v g r)
      \<Longrightarrow> unpack' h t (d + k) (bs @ m) tg = Some (Delivered v g (r @ m))"
  shows "unpackArray h t d bs left res = Some (Delivered v g r)
      \<Longrightarrow> unpackArray h t (d + k) (bs @ m) left res = Some (Delivered v g (r @ m))"
proof (induction left arbitrary: bs res)
  case 0
  then show ?case by simp
next
  case (Suc left)
  from Suc.prems obtain obj t' bs' where
    1: "unpack' h t d bs False = Some (Delivered obj t' bs')"
    and 2: "unpackArray h t d bs' left (res @ [obj]) = Some (Delivered v g r)"
    by (auto split: option.splits outcome.splits)
  show ?case
    using assms [OF 1] Suc.IH [OF 2] by simp
qed

lemma unpackMap_append:
  assumes "\<And>bs tg v g r. unpack' h t d bs tg = Some (Delivered v g r)
      \<Longrightarrow> unpack' h t (d + k) (bs @ m) tg = Some (Delivered v g (r @ m))"
  shows "unpackMap h t d bs left res = Some (Delivered v g r)
      \<Longrightarrow> unpackMap h t (d + k) (bs @ m) left res = Some (Delivered v g (r @ m))"
proof (induction left arbitrary: bs res)
  case 0
  then show ?case by simp
next
  case (Suc left)
  from Suc.prems obtain key tk bs1 val tv bs2 s res' where
    1: "unpack' h t d bs False = Some (Delivered key tk bs1)"
    and 2: "unpack' h t d bs1 False = Some (Delivered val tv bs2)"
    and 3: "ToPropertyKey h key = Inr s" and 4: "js_set h res s val = Inr res'"
    and 5: "unpackMap h t d bs2 left res' = Some (Delivered v g r)"
    by (auto split: option.splits outcome.splits sum.splits)
  show ?case
    using assms [OF 1] assms [OF 2] 3 4 Suc.IH [OF 5] by simp
qed

lemma unpackSemanticTag_append:
  assumes "\<And>bs tg v g r. unpack' h t d bs tg = Some (Delivered v g r)
      \<Longrightarrow> unpack' h t (d + k) (bs @ m) tg = Some (Delivered v g (r @ m))"
  shows "unpackSemanticTag h t d tag bs = Some (Delivered v g r)
      \<Longrightarrow> unpackSemanticTag h t (d + k) tag (bs @ m) = Some (Delivered v g (r @ m))"
proof -
  assume a: "unpackSemanticTag h t d tag bs = Some (Delivered v g r)"
  then obtain obj t' bs' where 1: "unpack' h t d bs True = Some (Delivered obj t' bs')"
    by (auto split: option.splits outcome.splits)
  show ?thesis
    using a assms [OF 1] 1
    by (auto simp: call_decoder_append split: option.splits)
qed

lemma getVal_append:
  assumes "\<And>bs tg v g r. unpack' h t d bs tg = Some (Delivered v g r)
      \<Longrightarrow> unpack' h t (d + k) (bs @ m) tg = Some (Delivered v g (r @ m))"
    and "getVal h t d mt n bs tg = Some (Delivered v g r)"
  shows "getVal h t (d + k) mt n (bs @ m) tg = Some (Delivered v g (r @ m))"
  using assms(2) unpackArray_append [OF assms(1)] unpackMap_append [OF assms(1)]
    unpackSemanticTag_append [OF assms(1)]
  by (auto simp: unpackSmallNumber_append wait_append split: if_splits option.splits)

lemma unpack'_append:
  "unpack' h t d bs tg = Some (Delivered v g r)
    \<Longrightarrow> unpack' h t (d + k) (bs @ m) tg = Some (Delivered v g (r @ m))"
proof (induction d arbitrary: bs tg v g r)
  case 0
  then show ?case by simp
next
  case (Suc d)
  note ext = getVal_append [of h t d k m, OF Suc.IH]
  show ?case
  proof (cases bs)
    case Nil
    then show ?thesis using Suc.prems by (simp add: unpack'_Nil)
  next
    case (Cons b bs')
    show ?thesis
      using Suc.prems ext unfolding Cons
      by (auto simp: unpack'_Cons Let_def unpackSmallNumber_append wait_append
          simp del: getVal.simps split: if_splits option.splits sum.splits)
  qed
qed


lemma js_shl_1_width:
  assumes "28 \<le> ai" "ai \<le> 31"
  shows "js_shl 1 (ai - 28) = 2 ^ nat (ai - 28)"
proof -
  from assms consider "ai = 28" | "ai = 29" | "ai = 30" | "ai = 31" by linarith
  then show ?thesis by cases (simp_all add: js_shl_1)
qed

lemma unpack'_operand:
  assumes "major_type b \<noteq> 6" "length ops = operand_width b"
  shows "unpack' h t (Suc d) (b # ops @ rest) tagged
    = getVal h t d (major_type b) (operand b ops) rest tagged"
proof (cases "28 \<le> uint b mod 32")
  case False
  then show ?thesis
    using assms by (auto simp: unpack'_Cons Let_def major_type_def operand_width_def operand_def
        simp del: getVal.simps)
next
  case True
  have le: "uint b mod 32 \<le> 31" by simp
  obtain n where n: "unpackInt (uint b mod 32) ops = Inr n"
    using unpackInt_total [OF True le] by blast
  have "wait (js_shl 1 (uint b mod 32 - 28)) (ops @ rest) = Some (ops, rest)"
    using assms True by (simp add: js_shl_1_width [OF True le] wait_def operand_width_def)
  then show ?thesis
    using assms True n
    by (auto simp: unpack'_Cons Let_def major_type_def operand_def simp del: getVal.simps)
qed

lemma decodes_at:
  assumes "decodes h psTags e v" "length e < d"
  shows "\<exists>g. unpack' h (Parser psTags) d (e @ rest) False = Some (Delivered v g rest)"
proof -
  from assms(1) obtain g where
    1: "unpack' h (Parser psTags) (Suc (length e)) e False = Some (Delivered v g [])"
    by (auto simp: decodes_def unpack_def split: option.splits outcome.splits)
  from assms(2) obtain k where k: "d = Suc (length e) + k"
    using less_iff_Suc_add by auto
  show ?thesis
    using unpack'_append [OF 1, of k rest] k by auto
qed

lemma unpackArray_elements:
  assumes "list_all2 (decodes h psTags) es vs" "length (concat es) < d"
  shows "unpackArray h (Parser psTags) d (concat es @ rest) (length es) res
    = Some (Delivered (JArray (res @ vs)) None rest)"
  using assms
proof (induction es vs arbitrary: res rule: list_all2_induct)
  case Nil
  then show ?case by simp
next
  case (Cons e es v vs)
  from Cons.prems have "length e < d" "length (concat es) < d" by simp_all
  from decodes_at [OF Cons.hyps(1) this(1), of "concat es @ rest"] obtain g where
    "unpack' h (Parser psTags) d (e @ concat es @ rest) False
      = Some (Delivered v g (concat es @ rest))"
    by blast
  then show ?case
    using Cons.IH [OF \<open>length (concat es) < d\<close>, of "res @ [v]"] by simp
qed

lemma unpackMap_pairs:
  assumes "list_all2 (\<lambda>(ke, ve) (k, v). decodes h psTags ke k \<and> decodes h psTags ve v) kes kvs"
    "length (concat (map (\<lambda>(ke, ve). ke @ ve) kes)) < d"
  shows "unpackMap h (Parser psTags) d (concat (map (\<lambda>(ke, ve). ke @ ve) kes) @ rest)
      (length kes) res
    = Some (case store_pairs h res kvs of
              Inl e \<Rightarrow> Thrown e
            | Inr res' \<Rightarrow> Delivered (object_value res') None rest)"
  using assms
proof (induction kes kvs arbitrary: res rule: list_all2_induct)
  case Nil
  then show ?case by simp
next
  case (Cons e es v vs)
  obtain ke ve where e: "e = (ke, ve)" by (cases e)
  obtain k' v' where v: "v = (k', v')" by (cases v)
  let ?r = "concat (map (\<lambda>(ke, ve). ke @ ve) es) @ rest"
  from Cons.prems e have l: "length ke < d" "length ve < d"
    "length (concat (map (\<lambda>(ke, ve). ke @ ve) es)) < d" by simp_all
  from Cons.hyps(1) e v have dk: "decodes h psTags ke k'" and dv: "decodes h psTags ve v'"
    by simp_all
  from decodes_at [OF dk l(1), of "ve @ ?r"] obtain g1 where
    1: "unpack' h (Parser psTags) d (ke @ ve @ ?r) False = Some (Delivered k' g1 (ve @ ?r))"
    by blast
  from decodes_at [OF dv l(2), of ?r] obtain g2 where
    2: "unpack' h (Parser psTags) d (ve @ ?r) False = Some (Delivered v' g2 ?r)"
    by blast
  show ?case
    using 1 2 Cons.IH [OF l(3)] e v
    by (simp split: sum.splits)
qed


lemma unpack'_tag_after_tag:
  assumes "major_type t1 = 7" "length ops1 = operand_width t1"
    and "major_type t2 = 7" "length ops2 = operand_width t2"
  shows "unpack' h t (Suc (Suc d)) (t1 # ops1 @ t2 # ops2 @ rest) False
           = Some (Failed TagMustNotFollowTag)"
  using unpack'_operand [of t1 ops1 h t "Suc d" "t2 # ops2 @ rest" False]
    unpack'_operand [of t2 ops2 h t d rest True] assms
  by simp

lemma tagged_item:
  assumes "major_type t1 = 7" "length ops1 = operand_width t1"
  shows "unpack' h (Parser psTags) (Suc d) (t1 # ops1 @ item) False =
     (case unpack' h (Parser psTags) d item True of
        None \<Rightarrow> None
      | Some (Delivered obj g rest) \<Rightarrow> Some (tagged_outcome h psTags (operand t1 ops1) obj rest)
      | Some other \<Rightarrow> Some other)"
  using unpack'_operand [of t1 ops1 h "Parser psTags" d item False] assms
  by (simp add: tagged_outcome_def split: option.splits outcome.splits)

lemma array_item:
  assumes "major_type a = 4" "length aops = operand_width a"
    and "operand a aops = int (length es)"
    and "list_all2 (decodes h psTags) es vs" "length (concat es) < d"
  shows "unpack' h (Parser psTags) (Suc d) (a # aops @ concat es @ rest) tg
    = Some (Delivered (JArray vs) None rest)"
  using unpack'_operand [of a aops h "Parser psTags" d "concat es @ rest" tg] assms(1-3)
    unpackArray_elements [OF assms(4,5), of rest "[]"]
  by simp

lemma map_item:
  assumes "major_type m = 5" "length mops = operand_width m"
    and "operand m mops = int (length kes)"
    and "list_all2 (\<lambda>(ke, ve) (k, v). decodes h psTags ke k \<and> decodes h psTags ve v) kes kvs"
    and "length (concat (map (\<lambda>(ke, ve). ke @ ve) kes)) < d"
  shows "unpack' h (Parser psTags) (Suc d)
      (m # mops @ concat (map (\<lambda>(ke, ve). ke @ ve) kes) @ rest) tg
    = Some (case store_pairs h (Initial, []) kvs of
              Inl e \<Rightarrow> Thrown e
            | Inr res \<Rightarrow> Delivered (object_value res) None rest)"
  using unpack'_operand [of m mops h "Parser psTags" d
      "concat (map (\<lambda>(ke, ve). ke @ ve) kes) @ rest" tg] assms(1-3)
    unpackMap_pairs [OF assms(4,5), of rest "(Initial, [])"]
  by simp

lemma Parser_Nil: "Parser [] = default_semanticTags"
  by (simp add: Parser_def)

lemma number_key_int: "\<bar>n\<bar> < 2 ^ 53 \<Longrightarrow> number_key h (int_num n) = int_string 10 n"
proof -
  assume "\<bar>n\<bar> < 2 ^ 53"
  then have "\<bar>of_int n :: rat\<bar> < 2 ^ 53"
    by (metis of_int_abs of_int_less_numeral_power_cancel_iff)
  then show ?thesis
    by (simp add: number_key_def int_num_def trunc_of_int)
qed

lemma digit_strings:
  "int_string 10 0 = ''0''" "int_string 10 1 = ''1''"
  by (simp_all add: int_string_def digits.simps digit_def)

lemma array_index_small: "array_index ''0'' = Some 0" "array_index ''1'' = Some 1"
  by (simp_all add: array_index_def digits.simps digit_def)

lemma untagged: "tagged_outcome h [] 1 obj rest = Delivered obj (Some 1) rest"
  by (simp add: tagged_outcome_def Parser_Nil default_semanticTags_def)

lemma tagged_numbers:
  "decodes h [] [0x00] (JNumber (int_num 0))"
  "decodes h [] [0xe2, 0x00] (JNumber (int_num 0))"
  "decodes h [] [0xe2, 0x01] (JNumber (int_num 1))"
  "decodes h [] [0xe3, 0x00] (JNumber (int_num 0))"
  "decodes h [] [0xe3, 0x01] (JNumber (int_num 1))"
  "decodes h [] [0xe4, 0x02] (JNumber (int_num 2))"
  by (simp_all add: decodes_def unpack_def Parser_Nil default_semanticTags_def unpack'_Cons)

lemma store_two:
  "store_pairs h (Initial, [])
     [(JNumber (int_num 0), JNumber (int_num 1)), (JNumber (int_num 1), JNumber (int_num 2))]
   = Inr (Initial, [(''0'', JNumber (int_num 1)), (''1'', JNumber (int_num 2))])"
  by (simp add: number_key_int digit_strings js_set_def add_own_def array_index_small)

text \<open>
  C5. Where the item that follows a tag is itself a tag, the decode fails with "Tag must
  not follow a tag": \<open>t1\<close> and \<open>t2\<close> are initial bytes of major type 7, each followed by
  the bytes of its operand. Where the item that follows the tag is an array, the
  elements are decoded as items of their own, whatever they are and wherever they stand
  in the array: each element that \<^verbatim>\<open>unpack\<close> decodes when given alone, a tagged item
  included, is decoded to the same value inside the array, and the tag is then applied
  to the array of these values. The same holds of the keys and the values of a map under
  a tag. So the flag reaches the item next to the tag only, and no element of an array
  or a map.
\<close>

theorem tag_must_not_follow_tag:
  assumes "major_type t1 = 7" "length ops1 = operand_width t1"
  shows "(major_type t2 = 7 \<longrightarrow> length ops2 = operand_width t2 \<longrightarrow>
        unpack h psTags (t1 # ops1 @ t2 # ops2 @ rest) = Some (Failed TagMustNotFollowTag))
    \<and> (major_type a = 4 \<longrightarrow> length aops = operand_width a \<longrightarrow>
        operand a aops = int (length es) \<longrightarrow> list_all2 (decodes h psTags) es vs \<longrightarrow>
        unpack h psTags (t1 # ops1 @ a # aops @ concat es @ rest)
          = Some (tagged_outcome h psTags (operand t1 ops1) (JArray vs) rest))
    \<and> (major_type m = 5 \<longrightarrow> length mops = operand_width m \<longrightarrow>
        operand m mops = int (length kes) \<longrightarrow>
        list_all2 (\<lambda>(ke, ve) (k, v). decodes h psTags ke k \<and> decodes h psTags ve v) kes kvs \<longrightarrow>
        unpack h psTags (t1 # ops1 @ m # mops @ concat (map (\<lambda>(ke, ve). ke @ ve) kes) @ rest)
          = Some (case store_pairs h (Initial, []) kvs of
                    Inl e \<Rightarrow> Thrown e
                  | Inr res \<Rightarrow> tagged_outcome h psTags (operand t1 ops1) (object_value res) rest))"
proof (intro conjI impI)
  assume "major_type t2 = 7" "length ops2 = operand_width t2"
  then show "unpack h psTags (t1 # ops1 @ t2 # ops2 @ rest) = Some (Failed TagMustNotFollowTag)"
    using unpack'_tag_after_tag [OF assms, of t2 ops2 h "Parser psTags"
        "Suc (length ops1 + (length ops2 + length rest))" rest]
    by (simp add: unpack_def)
next
  assume a: "major_type a = 4" "length aops = operand_width a"
    "operand a aops = int (length es)" "list_all2 (decodes h psTags) es vs"
  define d where "d = Suc (length ops1 + (length aops + (length (concat es) + length rest)))"
  have "length (concat es) < d" by (simp add: d_def)
  from array_item [OF a this, of rest True]
  have "unpack' h (Parser psTags) (Suc (Suc d)) (t1 # ops1 @ a # aops @ concat es @ rest) False
      = Some (tagged_outcome h psTags (operand t1 ops1) (JArray vs) rest)"
    by (simp add: tagged_item [OF assms])
  then show "unpack h psTags (t1 # ops1 @ a # aops @ concat es @ rest)
      = Some (tagged_outcome h psTags (operand t1 ops1) (JArray vs) rest)"
    by (simp add: unpack_def d_def)
next
  let ?bs = "concat (map (\<lambda>(ke, ve). ke @ ve) kes)"
  assume m: "major_type m = 5" "length mops = operand_width m"
    "operand m mops = int (length kes)"
    "list_all2 (\<lambda>(ke, ve) (k, v). decodes h psTags ke k \<and> decodes h psTags ve v) kes kvs"
  define d where "d = Suc (length ops1 + (length mops + (length ?bs + length rest)))"
  have "length ?bs < d" by (simp add: d_def)
  from map_item [OF m this, of rest True]
  have "unpack' h (Parser psTags) (Suc (Suc d)) (t1 # ops1 @ m # mops @ ?bs @ rest) False
      = Some (case store_pairs h (Initial, []) kvs of
                Inl e \<Rightarrow> Thrown e
              | Inr res \<Rightarrow> tagged_outcome h psTags (operand t1 ops1) (object_value res) rest)"
    by (simp add: tagged_item [OF assms] split: sum.splits)
  then show "unpack h psTags (t1 # ops1 @ m # mops @ ?bs @ rest)
      = Some (case store_pairs h (Initial, []) kvs of
                Inl e \<Rightarrow> Thrown e
              | Inr res \<Rightarrow> tagged_outcome h psTags (operand t1 ops1) (object_value res) rest)"
    by (simp add: unpack_def d_def)
qed


theorem tag_must_not_follow_tag_witness:
  "\<forall>h. major_type 0xe1 = 7 \<and> operand_width 0xe1 = 0
      \<and> major_type 0xfd = 7 \<and> operand_width 0xfd = 2
      \<and> unpack h [] [0xe1, 0xfd, 0x01, 0x00, 0x05] = Some (Failed TagMustNotFollowTag)
      \<and> unpack h [] [0xfd, 0x01, 0x00, 0xe1, 0x05] = Some (Failed TagMustNotFollowTag)
      \<and> major_type 0x82 = 4 \<and> operand_width 0x82 = 0 \<and> operand 0x82 [] = 2
      \<and> decodes h [] [0xe2, 0x00] (JNumber (int_num 0))
      \<and> decodes h [] [0xe3, 0x00] (JNumber (int_num 0))
      \<and> unpack h [] [0xe1, 0x82, 0xe2, 0x00, 0xe3, 0x00]
          = Some (Delivered (JArray [JNumber (int_num 0), JNumber (int_num 0)]) (Some 1) [])
      \<and> major_type 0xa2 = 5 \<and> operand_width 0xa2 = 0 \<and> operand 0xa2 [] = 2
      \<and> unpack h [] [0xe1, 0xa2, 0x00, 0xe2, 0x01, 0xe3, 0x01, 0xe4, 0x02]
          = Some (Delivered
              (JObject [(''0'', JNumber (int_num 1)), (''1'', JNumber (int_num 2))]) (Some 1) [])"
proof
  fix h
  have a: "major_type 0xe1 = 7" "operand_width 0xe1 = 0" "major_type 0xfd = 7"
    "operand_width 0xfd = 2" "major_type 0x82 = 4" "operand_width 0x82 = 0"
    "major_type 0xa2 = 5" "operand_width 0xa2 = 0"
    by (simp_all add: major_type_def operand_width_def)
  have b: "operand 0x82 [] = 2" "operand 0xa2 [] = 2" "operand 0xe1 [] = 1"
    by (simp_all add: operand_def)
  show "major_type 0xe1 = 7 \<and> operand_width 0xe1 = 0
      \<and> major_type 0xfd = 7 \<and> operand_width 0xfd = 2
      \<and> unpack h [] [0xe1, 0xfd, 0x01, 0x00, 0x05] = Some (Failed TagMustNotFollowTag)
      \<and> unpack h [] [0xfd, 0x01, 0x00, 0xe1, 0x05] = Some (Failed TagMustNotFollowTag)
      \<and> major_type 0x82 = 4 \<and> operand_width 0x82 = 0 \<and> operand 0x82 [] = 2
      \<and> decodes h [] [0xe2, 0x00] (JNumber (int_num 0))
      \<and> decodes h [] [0xe3, 0x00] (JNumber (int_num 0))
      \<and> unpack h [] [0xe1, 0x82, 0xe2, 0x00, 0xe3, 0x00]
          = Some (Delivered (JArray [JNumber (int_num 0), JNumber (int_num 0)]) (Some 1) [])
      \<and> major_type 0xa2 = 5 \<and> operand_width 0xa2 = 0 \<and> operand 0xa2 [] = 2
      \<and> unpack h [] [0xe1, 0xa2, 0x00, 0xe2, 0x01, 0xe3, 0x01, 0xe4, 0x02]
          = Some (Delivered
              (JObject [(''0'', JNumber (int_num 1)), (''1'', JNumber (int_num 2))]) (Some 1) [])"
    using tag_must_not_follow_tag [of "0xe1" "[]" "0xfd" "[0x01, 0x00]" h "[]" "[0x05]",
        THEN conjunct1]
      tag_must_not_follow_tag [of "0xfd" "[0x01, 0x00]" "0xe1" "[]" h "[]" "[0x05]",
        THEN conjunct1]
      tag_must_not_follow_tag [of "0xe1" "[]" _ _ h "[]" "[]" "0x82" "[]"
        "[[0xe2, 0x00], [0xe3, 0x00]]" "[JNumber (int_num 0), JNumber (int_num 0)]",
        THEN conjunct2, THEN conjunct1]
      tag_must_not_follow_tag [of "0xe1" "[]" _ _ h "[]" "[]" _ _ _ _ "0xa2" "[]"
        "[([0x00], [0xe2, 0x01]), ([0xe3, 0x01], [0xe4, 0x02])]"
        "[(JNumber (int_num 0), JNumber (int_num 1)), (JNumber (int_num 1), JNumber (int_num 2))]",
        THEN conjunct2, THEN conjunct2]
    by (simp add: a b tagged_numbers untagged store_two del: store_pairs.simps)
qed


subsection \<open>The keys of a map\<close>

text \<open>
  A key other than \<^verbatim>\<open>__proto__\<close> is stored under its string, and a later value replaces an
  earlier one: where no key of a map has the string \<^verbatim>\<open>__proto__\<close>, the object delivered
  holds, for each string, the value of the last pair whose key has that string.
\<close>

lemma map_of_replace:
  "map_of ps k = Some v0 \<Longrightarrow> map_of (replace k v ps) = (map_of ps)(k \<mapsto> v)"
  by (induction ps) (auto split: if_splits)

lemma map_of_insert_index:
  "map_of ps k = None \<Longrightarrow> map_of (insert_index n k v ps) = (map_of ps)(k \<mapsto> v)"
  by (induction ps) (auto split: option.splits if_splits)

lemma map_of_add_own:
  "map_of ps k = None \<Longrightarrow> map_of (add_own ps k v) = (map_of ps)(k \<mapsto> v)"
  by (auto simp: add_own_def map_of_insert_index map_add_def fun_eq_iff split: option.splits)

lemma js_set_other_key:
  assumes "k \<noteq> ''__proto__''"
  shows "\<exists>ps'. js_set h (Initial, ps) k v = Inr (Initial, ps')
    \<and> map_of ps' = (map_of ps)(k \<mapsto> v)"
  using assms by (cases "map_of ps k") (auto simp: js_set_def map_of_add_own map_of_replace)

lemma store_pairs_other_keys:
  assumes "list_all2 (\<lambda>(key, val) (k, v). ToPropertyKey h key = Inr k \<and> k \<noteq> ''__proto__'' \<and> v = val)
      kvs svs"
  shows "\<exists>ps'. store_pairs h (Initial, ps) kvs = Inr (Initial, ps')
    \<and> map_of ps' = map_of (rev svs @ ps)"
  using assms
proof (induction kvs svs arbitrary: ps rule: list_all2_induct)
  case Nil
  then show ?case by simp
next
  case (Cons kv kvs sv svs)
  obtain key val where kv: "kv = (key, val)" by (cases kv)
  obtain k v where sv: "sv = (k, v)" by (cases sv)
  from Cons.hyps(1) kv sv have k: "ToPropertyKey h key = Inr k" "k \<noteq> ''__proto__''" "v = val"
    by simp_all
  from js_set_other_key [OF k(2), of h ps val] obtain ps1 where
    1: "js_set h (Initial, ps) k val = Inr (Initial, ps1)" "map_of ps1 = (map_of ps)(k \<mapsto> val)"
    by blast
  from Cons.IH [of ps1] obtain ps' where
    2: "store_pairs h (Initial, ps1) kvs = Inr (Initial, ps')"
    "map_of ps' = map_of (rev svs @ ps1)"
    by blast
  have "map_of (rev svs @ ps1) = map_of (rev (sv # svs) @ ps)"
    using 1(2) k(3) sv by (simp add: map_add_def fun_eq_iff split: option.splits)
  then show ?case
    using kv k 1 2 by simp
qed

lemma other_keys_are_stored:
  assumes "major_type m = 5" "length mops = operand_width m"
    and "operand m mops = int (length kes)"
    and "list_all2 (\<lambda>(ke, ve) (k, v). decodes h psTags ke k \<and> decodes h psTags ve v) kes kvs"
    and "list_all2 (\<lambda>(key, val) (k, v). ToPropertyKey h key = Inr k \<and> k \<noteq> ''__proto__'' \<and> v = val)
      kvs svs"
  shows "\<exists>ps. unpack h psTags (m # mops @ concat (map (\<lambda>(ke, ve). ke @ ve) kes) @ rest)
        = Some (Delivered (JObject ps) None rest)
    \<and> map_of ps = map_of (rev svs)"
proof -
  let ?bs = "concat (map (\<lambda>(ke, ve). ke @ ve) kes)"
  define d where "d = length mops + (length ?bs + length rest)"
  have "length ?bs < Suc d" by (simp add: d_def)
  from map_item [OF assms(1-4) this, of rest False]
  have "unpack h psTags (m # mops @ ?bs @ rest)
      = Some (case store_pairs h (Initial, []) kvs of
                Inl e \<Rightarrow> Thrown e
              | Inr res \<Rightarrow> Delivered (object_value res) None rest)"
    by (simp add: unpack_def d_def)
  moreover from store_pairs_other_keys [OF assms(5), of "[]"] obtain ps where
    "store_pairs h (Initial, []) kvs = Inr (Initial, ps)" "map_of ps = map_of (rev svs)"
    by auto
  ultimately show ?thesis by simp
qed

lemma proto_chars:
  "char_of_byte 0x5f = CHR ''_''" "char_of_byte 0x70 = CHR ''p''" "char_of_byte 0x72 = CHR ''r''"
  "char_of_byte 0x6f = CHR ''o''" "char_of_byte 0x74 = CHR ''t''"
  by code_simp+

lemma proto_text:
  "toString_utf8 [0x5f, 0x5f, 0x70, 0x72, 0x6f, 0x74, 0x6f, 0x5f, 0x5f] = ''__proto__''"
  by (simp add: toString_utf8_def proto_chars)

lemma proto_item:
  "unpack' h t (Suc d) (0x69 # 0x5f # 0x5f # 0x70 # 0x72 # 0x6f # 0x74 # 0x6f # 0x5f # 0x5f # rest) tg
    = Some (Delivered (JString ''__proto__'') None rest)"
  by (simp add: unpack'_Cons wait_def proto_text)

lemma small_item:
  "unpack' h t (Suc d) (0x01 # rest) tg = Some (Delivered (JNumber (int_num 1)) None rest)"
  "unpack' h t (Suc d) (0x02 # rest) tg = Some (Delivered (JNumber (int_num 2)) None rest)"
  "unpack' h t (Suc d) (0x05 # rest) tg = Some (Delivered (JNumber (int_num 5)) None rest)"
  "unpack' h t (Suc d) (0xda # rest) tg = Some (Delivered JNull None rest)"
  by (simp_all add: unpack'_Cons unpackSmallNumber_def)

lemma map_header:
  "unpack' h t (Suc d) (0xa1 # rest) tg = unpackMap h t d rest (Suc 0) (Initial, [])"
  "unpack' h t (Suc d) (0xa2 # rest) tg = unpackMap h t d rest (Suc (Suc 0)) (Initial, [])"
proof -
  have "unpack' h t (Suc d) (0xa1 # rest) tg = getVal h t d 5 1 rest tg"
    "unpack' h t (Suc d) (0xa2 # rest) tg = getVal h t d 5 2 rest tg"
    by (simp_all add: unpack'_Cons del: getVal.simps)
  then show "unpack' h t (Suc d) (0xa1 # rest) tg = unpackMap h t d rest (Suc 0) (Initial, [])"
    "unpack' h t (Suc d) (0xa2 # rest) tg = unpackMap h t d rest (Suc (Suc 0)) (Initial, [])"
    by (simp_all add: numeral_2_eq_2 del: unpackMap.simps)
qed

lemma proto_pack:
  "pack (JObject [(''__proto__'', JNumber (int_num 1))])
     = Inr [0xa1, 0x69, 0x5f, 0x5f, 0x70, 0x72, 0x6f, 0x74, 0x6f, 0x5f, 0x5f, 0x01]"
  by code_simp

text \<open>
  C10. The key \<^verbatim>\<open>__proto__\<close> is converted to a string like every other key, but the pair is
  not stored: \<^verbatim>\<open>res[key] = val\<close> on an object made by \<^verbatim>\<open>{}\<close> calls the setter that the
  object inherits under this name. The map of the one pair \<^verbatim>\<open>__proto__\<close>, 1 decodes to an
  object with no property, and so does the map that has a second pair \<^verbatim>\<open>__proto__\<close>, 2: the
  later value is not kept either. With null as the first value the object loses its
  prototype, and the second pair is then stored as a property of its own. The bytes of
  the first map are those the generator emits for an object that has the property
  \<^verbatim>\<open>__proto__\<close> of its own, which it writes like any other key.
\<close>

theorem proto_key_is_not_stored:
  "unpack h [] [0xa1, 0x69, 0x5f, 0x5f, 0x70, 0x72, 0x6f, 0x74, 0x6f, 0x5f, 0x5f, 0x01]
     = Some (Delivered (JObject []) None [])
   \<and> unpack h [] [0xa2, 0x69, 0x5f, 0x5f, 0x70, 0x72, 0x6f, 0x74, 0x6f, 0x5f, 0x5f, 0x01,
         0x69, 0x5f, 0x5f, 0x70, 0x72, 0x6f, 0x74, 0x6f, 0x5f, 0x5f, 0x02]
     = Some (Delivered (JObject []) None [])
   \<and> unpack h [] [0xa2, 0x69, 0x5f, 0x5f, 0x70, 0x72, 0x6f, 0x74, 0x6f, 0x5f, 0x5f, 0xda,
         0x69, 0x5f, 0x5f, 0x70, 0x72, 0x6f, 0x74, 0x6f, 0x5f, 0x5f, 0x05]
     = Some (Delivered (JObjectProto None [(''__proto__'', JNumber (int_num 5))]) None [])
   \<and> pack (JObject [(''__proto__'', JNumber (int_num 1))])
     = Inr [0xa1, 0x69, 0x5f, 0x5f, 0x70, 0x72, 0x6f, 0x74, 0x6f, 0x5f, 0x5f, 0x01]"
  by (simp add: proto_pack unpack_def map_header proto_item small_item js_set_def
      proto_setter_def add_own_def array_index_def digits.simps)

theorem proto_key_is_not_stored_witness:
  "\<forall>h. unpack h [] [0xa1, 0x69, 0x5f, 0x5f, 0x70, 0x72, 0x6f, 0x74, 0x6f, 0x5f, 0x5f, 0x01]
     = Some (Delivered (JObject []) None [])"
  using proto_key_is_not_stored by simp


end
